theory Spec2Isabelle
  imports Complex_Main "HOL-Library.Word"
begin

unbundle bit_operations_syntax

section \<open>Python values used by the encoder\<close>

text \<open>
  The program is one Python class, \<open>EGTStrack\<close>, that assembles EGTS packets. Python
  integers are unbounded and are modelled as \<^typ>\<open>int\<close>; a \<open>bytes\<close> object is a list
  of 8-bit words; an exception is a value of \<open>error\<close>, returned on the left of a sum.
\<close>

type_synonym byte = "8 word"

datatype error = OverflowError | IndexError | KeyError | TypeError | UnboundLocalError
  | ValueError | ZeroDivisionError

text \<open>Sequencing of computations that may raise.\<close>

definition ebind :: "error + 'a \<Rightarrow> ('a \<Rightarrow> error + 'b) \<Rightarrow> error + 'b" where
  "ebind m f = (case m of Inl e \<Rightarrow> Inl e | Inr x \<Rightarrow> f x)"

text \<open>
  \<open>n.to_bytes(length, byteorder='little')\<close>: the unsigned little-endian digits of \<open>n\<close>;
  OverflowError when \<open>n\<close> is negative or does not fit.
\<close>

fun le_bytes :: "nat \<Rightarrow> int \<Rightarrow> byte list" where
  "le_bytes 0 n = []"
| "le_bytes (Suc k) n = word_of_int n # le_bytes k (n div 256)"

definition to_bytes :: "int \<Rightarrow> nat \<Rightarrow> error + byte list" where
  "to_bytes n len = (if 0 \<le> n \<and> n < 256 ^ len then Inr (le_bytes len n) else Inl OverflowError)"

text \<open>Reading a little-endian field back, to state what a field of a packet holds.\<close>

fun le_int :: "byte list \<Rightarrow> int" where
  "le_int [] = 0"
| "le_int (b # bs) = uint b + 256 * le_int bs"

text \<open>
  \<open>t[i]\<close> on a tuple: a negative index counts from the end, and an index outside the
  tuple raises IndexError.
\<close>

definition tuple_index :: "int list \<Rightarrow> int \<Rightarrow> error + int" where
  "tuple_index t i =
     (if 0 \<le> i \<and> i < int (length t) then Inr (t ! nat i)
      else if - int (length t) \<le> i \<and> i < 0 then Inr (t ! nat (int (length t) + i))
      else Inl IndexError)"

section \<open>Checksum tables\<close>

definition CRC8_TABLE :: "int list" where
  "CRC8_TABLE = [
    0x00, 0x31, 0x62, 0x53, 0xC4, 0xF5, 0xA6, 0x97,
    0xB9, 0x88, 0xDB, 0xEA, 0x7D, 0x4C, 0x1F, 0x2E,
    0x43, 0x72, 0x21, 0x10, 0x87, 0xB6, 0xE5, 0xD4,
    0xFA, 0xCB, 0x98, 0xA9, 0x3E, 0x0F, 0x5C, 0x6D,
    0x86, 0xB7, 0xE4, 0xD5, 0x42, 0x73, 0x20, 0x11,
    0x3F, 0x0E, 0x5D, 0x6C, 0xFB, 0xCA, 0x99, 0xA8,
    0xC5, 0xF4, 0xA7, 0x96, 0x01, 0x30, 0x63, 0x52,
    0x7C, 0x4D, 0x1E, 0x2F, 0xB8, 0x89, 0xDA, 0xEB,
    0x3D, 0x0C, 0x5F, 0x6E, 0xF9, 0xC8, 0x9B, 0xAA,
    0x84, 0xB5, 0xE6, 0xD7, 0x40, 0x71, 0x22, 0x13,
    0x7E, 0x4F, 0x1C, 0x2D, 0xBA, 0x8B, 0xD8, 0xE9,
    0xC7, 0xF6, 0xA5, 0x94, 0x03, 0x32, 0x61, 0x50,
    0xBB, 0x8A, 0xD9, 0xE8, 0x7F, 0x4E, 0x1D, 0x2C,
    0x02, 0x33, 0x60, 0x51, 0xC6, 0xF7, 0xA4, 0x95,
    0xF8, 0xC9, 0x9A, 0xAB, 0x3C, 0x0D, 0x5E, 0x6F,
    0x41, 0x70, 0x23, 0x12, 0x85, 0xB4, 0xE7, 0xD6,
    0x7A, 0x4B, 0x18, 0x29, 0xBE, 0x8F, 0xDC, 0xED,
    0xC3, 0xF2, 0xA1, 0x90, 0x07, 0x36, 0x65, 0x54,
    0x39, 0x08, 0x5B, 0x6A, 0xFD, 0xCC, 0x9F, 0xAE,
    0x80, 0xB1, 0xE2, 0xD3, 0x44, 0x75, 0x26, 0x17,
    0xFC, 0xCD, 0x9E, 0xAF, 0x38, 0x09, 0x5A, 0x6B,
    0x45, 0x74, 0x27, 0x16, 0x81, 0xB0, 0xE3, 0xD2,
    0xBF, 0x8E, 0xDD, 0xEC, 0x7B, 0x4A, 0x19, 0x28,
    0x06, 0x37, 0x64, 0x55, 0xC2, 0xF3, 0xA0, 0x91,
    0x47, 0x76, 0x25, 0x14, 0x83, 0xB2, 0xE1, 0xD0,
    0xFE, 0xCF, 0x9C, 0xAD, 0x3A, 0x0B, 0x58, 0x69,
    0x04, 0x35, 0x66, 0x57, 0xC0, 0xF1, 0xA2, 0x93,
    0xBD, 0x8C, 0xDF, 0xEE, 0x79, 0x48, 0x1B, 0x2A,
    0xC1, 0xF0, 0xA3, 0x92, 0x05, 0x34, 0x67, 0x56,
    0x78, 0x49, 0x1A, 0x2B, 0xBC, 0x8D, 0xDE, 0xEF,
    0x82, 0xB3, 0xE0, 0xD1, 0x46, 0x77, 0x24, 0x15,
    0x3B, 0x0A, 0x59, 0x68, 0xFF, 0xCE, 0x9D, 0xAC]"

definition CRC16_TABLE :: "int list" where
  "CRC16_TABLE = [
    0x0000, 0x1021, 0x2042, 0x3063, 0x4084, 0x50a5,
    0x60c6, 0x70e7, 0x8108, 0x9129, 0xa14a, 0xb16b,
    0xc18c, 0xd1ad, 0xe1ce, 0xf1ef, 0x1231, 0x0210,
    0x3273, 0x2252, 0x52b5, 0x4294, 0x72f7, 0x62d6,
    0x9339, 0x8318, 0xb37b, 0xa35a, 0xd3bd, 0xc39c,
    0xf3ff, 0xe3de, 0x2462, 0x3443, 0x0420, 0x1401,
    0x64e6, 0x74c7, 0x44a4, 0x5485, 0xa56a, 0xb54b,
    0x8528, 0x9509, 0xe5ee, 0xf5cf, 0xc5ac, 0xd58d,
    0x3653, 0x2672, 0x1611, 0x0630, 0x76d7, 0x66f6,
    0x5695, 0x46b4, 0xb75b, 0xa77a, 0x9719, 0x8738,
    0xf7df, 0xe7fe, 0xd79d, 0xc7bc, 0x48c4, 0x58e5,
    0x6886, 0x78a7, 0x0840, 0x1861, 0x2802, 0x3823,
    0xc9cc, 0xd9ed, 0xe98e, 0xf9af, 0x8948, 0x9969,
    0xa90a, 0xb92b, 0x5af5, 0x4ad4, 0x7ab7, 0x6a96,
    0x1a71, 0x0a50, 0x3a33, 0x2a12, 0xdbfd, 0xcbdc,
    0xfbbf, 0xeb9e, 0x9b79, 0x8b58, 0xbb3b, 0xab1a,
    0x6ca6, 0x7c87, 0x4ce4, 0x5cc5, 0x2c22, 0x3c03,
    0x0c60, 0x1c41, 0xedae, 0xfd8f, 0xcdec, 0xddcd,
    0xad2a, 0xbd0b, 0x8d68, 0x9d49, 0x7e97, 0x6eb6,
    0x5ed5, 0x4ef4, 0x3e13, 0x2e32, 0x1e51, 0x0e70,
    0xff9f, 0xefbe, 0xdfdd, 0xcffc, 0xbf1b, 0xaf3a,
    0x9f59, 0x8f78, 0x9188, 0x81a9, 0xb1ca, 0xa1eb,
    0xd10c, 0xc12d, 0xf14e, 0xe16f, 0x1080, 0x00a1,
    0x30c2, 0x20e3, 0x5004, 0x4025, 0x7046, 0x6067,
    0x83b9, 0x9398, 0xa3fb, 0xb3da, 0xc33d, 0xd31c,
    0xe37f, 0xf35e, 0x02b1, 0x1290, 0x22f3, 0x32d2,
    0x4235, 0x5214, 0x6277, 0x7256, 0xb5ea, 0xa5cb,
    0x95a8, 0x8589, 0xf56e, 0xe54f, 0xd52c, 0xc50d,
    0x34e2, 0x24c3, 0x14a0, 0x0481, 0x7466, 0x6447,
    0x5424, 0x4405, 0xa7db, 0xb7fa, 0x8799, 0x97b8,
    0xe75f, 0xf77e, 0xc71d, 0xd73c, 0x26d3, 0x36f2,
    0x0691, 0x16b0, 0x6657, 0x7676, 0x4615, 0x5634,
    0xd94c, 0xc96d, 0xf90e, 0xe92f, 0x99c8, 0x89e9,
    0xb98a, 0xa9ab, 0x5844, 0x4865, 0x7806, 0x6827,
    0x18c0, 0x08e1, 0x3882, 0x28a3, 0xcb7d, 0xdb5c,
    0xeb3f, 0xfb1e, 0x8bf9, 0x9bd8, 0xabbb, 0xbb9a,
    0x4a75, 0x5a54, 0x6a37, 0x7a16, 0x0af1, 0x1ad0,
    0x2ab3, 0x3a92, 0xfd2e, 0xed0f, 0xdd6c, 0xcd4d,
    0xbdaa, 0xad8b, 0x9de8, 0x8dc9, 0x7c26, 0x6c07,
    0x5c64, 0x4c45, 0x3ca2, 0x2c83, 0x1ce0, 0x0cc1,
    0xef1f, 0xff3e, 0xcf5d, 0xdf7c, 0xaf9b, 0xbfba,
    0x8fd9, 0x9ff8, 0x6e17, 0x7e36, 0x4e55, 0x5e74,
    0x2e93, 0x3eb2, 0x0ed1, 0x1ef0]"

section \<open>Checksums\<close>

text \<open>
  \<open>header_crc\<close> and \<open>data_crc\<close> are \<open>while i < len(...)\<close> loops over an index; the
  loop is the recursive function, the index its third argument.
\<close>

function header_crc_loop :: "byte list \<Rightarrow> int \<Rightarrow> nat \<Rightarrow> error + int" where
  "header_crc_loop header crc i =
     (if i < length header then
        (case tuple_index CRC8_TABLE (crc XOR uint (header ! i)) of
           Inl e \<Rightarrow> Inl e
         | Inr crc' \<Rightarrow> header_crc_loop header crc' (i + 1))
      else Inr crc)"
  by pat_completeness auto
termination
  by (relation "measure (\<lambda>(header, crc, i). length header - i)") auto

definition header_crc :: "byte list \<Rightarrow> error + int" where
  "header_crc header = header_crc_loop header 0xFF 0"

function data_crc_loop :: "byte list \<Rightarrow> int \<Rightarrow> nat \<Rightarrow> error + int" where
  "data_crc_loop data crc i =
     (if i < length data then
        (case tuple_index CRC16_TABLE (drop_bit 8 crc XOR uint (data ! i)) of
           Inl e \<Rightarrow> Inl e
         | Inr t \<Rightarrow> data_crc_loop data ((push_bit 8 crc mod 0x10000) XOR t) (i + 1))
      else Inr crc)"
  by pat_completeness auto
termination
  by (relation "measure (\<lambda>(data, crc, i). length data - i)") auto

definition data_crc :: "byte list \<Rightarrow> error + int" where
  "data_crc data = data_crc_loop data 0xFFFF 0"

text \<open>
  The checksums as the specification words them: a left fold over the bytes, from the
  initial value, with the table step.
\<close>

definition header_crc8_step :: "int \<Rightarrow> byte \<Rightarrow> int" where
  "header_crc8_step crc b = CRC8_TABLE ! nat (crc XOR uint b)"

definition header_crc8 :: "byte list \<Rightarrow> int" where
  "header_crc8 bs = foldl header_crc8_step 0xFF bs"

definition payload_crc16_step :: "int \<Rightarrow> byte \<Rightarrow> int" where
  "payload_crc16_step crc b =
     (push_bit 8 crc mod 0x10000) XOR (CRC16_TABLE ! nat (drop_bit 8 crc XOR uint b))"

definition payload_crc16 :: "byte list \<Rightarrow> int" where
  "payload_crc16 bs = foldl payload_crc16_step 0xFFFF bs"

section \<open>The session object\<close>

text \<open>
  The fields of an \<open>EGTStrack\<close> object, under the source's names without the leading
  underscore. \<open>_service\<close> is either \<open>None\<close> or a \<open>bytes\<close> object; \<open>_sfrcs\<close> is the
  integer 0 until the first packet and a \<open>bytes\<close> object afterwards. \<open>_imei\<close> is a \<open>str\<close>
  that the code only ever reads through \<open>encode('utf-8')\<close>: it is kept as the characters of
  that encoding.
\<close>

datatype pyval = PyInt int | PyBytes "byte list"

record session =
  tid :: int
  imei :: string
  pt :: "byte list"
  hcs :: "byte list"
  sfrcs :: pyval
  service :: "byte list option"
  fdl :: "byte list"
  pid :: int
  rn :: int

text \<open>
  A statement that raises leaves the object as the statements before it made it: a raised
  error carries the session at that point.
\<close>

definition raise_in :: "session \<Rightarrow> error + 'a \<Rightarrow> ('a \<Rightarrow> (error \<times> session) + 'b)
    \<Rightarrow> (error \<times> session) + 'b" where
  "raise_in s m f = (case m of Inl e \<Rightarrow> Inl (e, s) | Inr x \<Rightarrow> f x)"

definition encode :: "string \<Rightarrow> byte list" where
  "encode str = map (\<lambda>c. of_nat (of_char c)) str"

section \<open>Python numbers\<close>

text \<open>
  The keyword arguments \<open>long\<close>, \<open>lat\<close> and \<open>speed\<close> are Python numbers: an \<open>int\<close>
  or a \<open>float\<close>. A \<open>float\<close> is an IEEE-754 binary64 value: a finite value (kept as the
  rational it denotes; the sign of zero, which no operation used here can observe, is
  dropped), an infinity or a NaN.
\<close>

datatype double = Finite rat | PlusInf | MinusInf | NaN

datatype pynum = IntNum int | FloatNum double

text \<open>
  Rounding to binary64. \<open>bit_length\<close> is the number of binary digits of a positive
  integer, \<open>floor_log2 x\<close> the exponent \<open>e\<close> with \<open>2 ^ e \<le> x < 2 ^ (e + 1)\<close> for a
  positive rational, \<open>round_half_even\<close> the nearest integer with ties to the even one.
  \<open>fl x\<close> is the value nearest to \<open>x\<close> with 53 significant bits (fewer below
  \<open>2 ^ - 1022\<close>, where the spacing stays \<open>2 ^ - 1074\<close>), ties to even, and an infinity
  when the rounded magnitude reaches \<open>2 ^ 1024\<close>: the exponent is 1024 or more, or it is
  1023 and the significand \<open>m\<close> has rounded up to \<open>2 ^ 53\<close>. It is what every arithmetic operation
  applies to its exact result, and what reading a decimal literal applies to the literal.
\<close>

function bit_length :: "int \<Rightarrow> int" where
  "bit_length n = (if n \<le> 0 then 0 else 1 + bit_length (n div 2))"
  by pat_completeness auto
termination
  by (relation "measure nat") auto

definition pow2 :: "int \<Rightarrow> rat" where
  "pow2 e = (if 0 \<le> e then of_int (2 ^ nat e) else 1 / of_int (2 ^ nat (- e)))"

definition floor_log2 :: "rat \<Rightarrow> int" where
  "floor_log2 x =
     (let d = bit_length (fst (quotient_of x)) - bit_length (snd (quotient_of x))
      in if pow2 d \<le> x then d else d - 1)"

definition round_half_even :: "rat \<Rightarrow> int" where
  "round_half_even x =
     (let f = \<lfloor>x\<rfloor>; d = x - of_int f
      in if d < 1 / 2 then f else if 1 / 2 < d then f + 1 else if even f then f else f + 1)"

definition fl :: "rat \<Rightarrow> double" where
  "fl x =
     (if x = 0 then Finite 0
      else
        let e = max (floor_log2 \<bar>x\<bar>) (- 1022);
            ulp = pow2 (e - 52);
            m = round_half_even (\<bar>x\<bar> / ulp)
        in if 1024 \<le> e \<or> (e = 1023 \<and> 2 ^ 53 \<le> m) then (if 0 < x then PlusInf else MinusInf)
           else Finite (if 0 < x then of_int m * ulp else - (of_int m * ulp)))"

text \<open>
  Multiplication and division of two floats: a NaN operand gives NaN, infinity times
  zero and infinity over infinity give NaN, otherwise an infinite operand gives an
  infinity (or zero, for a finite value over an infinity) with the sign of the operands,
  and two finite operands give the rounded exact result. Python raises ZeroDivisionError
  for a zero divisor.
\<close>

fun dsgn :: "double \<Rightarrow> int" where
  "dsgn (Finite a) = (if a < 0 then - 1 else if a = 0 then 0 else 1)"
| "dsgn PlusInf = 1"
| "dsgn MinusInf = - 1"
| "dsgn NaN = 0"

definition signed_inf :: "int \<Rightarrow> double" where
  "signed_inf sg = (if sg = 0 then NaN else if 0 < sg then PlusInf else MinusInf)"

fun fmul :: "double \<Rightarrow> double \<Rightarrow> double" where
  "fmul NaN y = NaN"
| "fmul x NaN = NaN"
| "fmul (Finite a) (Finite b) = fl (a * b)"
| "fmul x y = signed_inf (dsgn x * dsgn y)"

fun fdiv :: "double \<Rightarrow> double \<Rightarrow> error + double" where
  "fdiv x (Finite b) =
     (if b = 0 then Inl ZeroDivisionError
      else case x of Finite a \<Rightarrow> Inr (fl (a / b)) | NaN \<Rightarrow> Inr NaN
           | _ \<Rightarrow> Inr (signed_inf (dsgn x * dsgn (Finite b))))"
| "fdiv x NaN = Inr NaN"
| "fdiv (Finite a) y = Inr (Finite 0)"
| "fdiv x y = Inr NaN"

text \<open>
  The operations of the source on numbers. An \<open>int\<close> meeting a \<open>float\<close> is converted
  first (rounded, OverflowError when it is too large); \<open>int / int\<close> is the rounded exact
  quotient; \<open>int * int\<close> is exact; \<open>int(x)\<close> drops the fraction of a finite float and
  raises for an infinity (OverflowError) and for a NaN (ValueError).
\<close>

definition float_of_int :: "int \<Rightarrow> error + double" where
  "float_of_int n =
     (case fl (of_int n) of Finite r \<Rightarrow> Inr (Finite r) | _ \<Rightarrow> Inl OverflowError)"

fun to_float :: "pynum \<Rightarrow> error + double" where
  "to_float (IntNum n) = float_of_int n"
| "to_float (FloatNum x) = Inr x"

fun py_abs :: "pynum \<Rightarrow> pynum" where
  "py_abs (IntNum n) = IntNum \<bar>n\<bar>"
| "py_abs (FloatNum (Finite a)) = FloatNum (Finite \<bar>a\<bar>)"
| "py_abs (FloatNum NaN) = FloatNum NaN"
| "py_abs (FloatNum x) = FloatNum PlusInf"

fun py_lt_0 :: "pynum \<Rightarrow> bool" where
  "py_lt_0 (IntNum n) = (n < 0)"
| "py_lt_0 (FloatNum (Finite a)) = (a < 0)"
| "py_lt_0 (FloatNum MinusInf) = True"
| "py_lt_0 (FloatNum x) = False"

fun py_truediv :: "pynum \<Rightarrow> pynum \<Rightarrow> error + pynum" where
  "py_truediv (IntNum a) (IntNum b) =
     (if b = 0 then Inl ZeroDivisionError
      else case fl (of_int a / of_int b) of
             Finite r \<Rightarrow> Inr (FloatNum (Finite r)) | _ \<Rightarrow> Inl OverflowError)"
| "py_truediv x y =
     ebind (to_float x) (\<lambda>a. ebind (to_float y) (\<lambda>b. ebind (fdiv a b) (\<lambda>q. Inr (FloatNum q))))"

fun py_mul :: "pynum \<Rightarrow> pynum \<Rightarrow> error + pynum" where
  "py_mul (IntNum a) (IntNum b) = Inr (IntNum (a * b))"
| "py_mul x y =
     ebind (to_float x) (\<lambda>a. ebind (to_float y) (\<lambda>b. Inr (FloatNum (fmul a b))))"

fun py_int :: "pynum \<Rightarrow> error + int" where
  "py_int (IntNum n) = Inr n"
| "py_int (FloatNum (Finite a)) = Inr (if 0 \<le> a then \<lfloor>a\<rfloor> else \<lceil>a\<rceil>)"
| "py_int (FloatNum NaN) = Inl ValueError"
| "py_int (FloatNum x) = Inl OverflowError"

text \<open>
  \<open>abs(v) / divisor * 0xFFFFFFFF\<close> and \<open>int(abs(v) / divisor * 0xFFFFFFFF)\<close>, which the
  source writes once with 180 for the longitude and once with 90 for the latitude.
\<close>

definition scaled :: "pynum \<Rightarrow> int \<Rightarrow> error + pynum" where
  "scaled v divisor =
     ebind (py_truediv (py_abs v) (IntNum divisor)) (\<lambda>q. py_mul q (IntNum 0xFFFFFFFF))"

definition coordinate :: "pynum \<Rightarrow> int \<Rightarrow> error + int" where
  "coordinate v divisor = ebind (scaled v divisor) py_int"

definition kwargs_get :: "(string \<rightharpoonup> pynum) \<Rightarrow> string \<Rightarrow> error + pynum" where
  "kwargs_get kwargs k = (case kwargs k of None \<Rightarrow> Inl KeyError | Some v \<Rightarrow> Inr v)"

section \<open>The clock\<close>

text \<open>
  A \<open>datetime\<close> is the number of microseconds from 2010-01-01 00:00:00, so that
  \<open>initial_date\<close> is 0. \<open>total_seconds()\<close> divides by \<open>10 ^ 6\<close> and \<open>int\<close> truncates
  towards zero. The readings of \<open>datetime.datetime.now()\<close> are arguments of the model:
  \<open>add_service\<close> takes the pair of the first and the second reading of one call.
\<close>

definition initial_date :: int where
  "initial_date = 0"

definition get_date_time :: "int \<Rightarrow> int" where
  "get_date_time val =
     (let us = val - initial_date - 180 * 60 * 1000000
      in sgn us * (\<bar>us\<bar> div 1000000))"

section \<open>Encoding and queueing a record: \<open>add_service\<close>\<close>

text \<open>
  The four branches of \<open>add_service\<close>, one definition each. A branch gets the session
  \<open>s\<close>, the two bytes \<open>rn\<close> of the record number and the defaults \<open>sst\<close>, \<open>rst\<close>,
  \<open>rfl\<close> set before the branch; it returns \<open>headService + _service\<close> and the session.
  Byte literals are written out: \<open>b'\x1111'\<close> is the three bytes 0x11, '1', '1'.
\<close>

definition add_service_1 :: "session \<Rightarrow> byte list \<Rightarrow> int \<times> int
    \<Rightarrow> (error \<times> session) + (byte list \<times> session)" where
  "add_service_1 s rn_b clock =
     (let sst = [0x01]; rst = [0x01] in
      raise_in s (to_bytes (tid s) 4) (\<lambda>oid.
      raise_in s (to_bytes (get_date_time (fst clock)) 4) (\<lambda>tm.
      let rfl = [0x05]; s = s\<lparr>pt := [0x01]\<rparr> in
      raise_in s (to_bytes 1 1) (\<lambda>srt.
      raise_in s (to_bytes (tid s) 4) (\<lambda>tid_b.
      let mservice = tid_b @ [0x9e] @ encode (imei s) @ encode ''0000000000000000''
                       @ encode ''rus'' @ encode ''000000000000000'' in
      raise_in s (to_bytes (int (length mservice)) 2) (\<lambda>srl.
      let service' = srt @ srl @ mservice in
      raise_in s (to_bytes (int (length service')) 2) (\<lambda>rl.
      let headService = rl @ rn_b @ rfl @ oid @ tm @ sst @ rst in
      Inr (headService @ service', s))))))))"

definition add_service_2 :: "session \<Rightarrow> byte list \<Rightarrow> int \<times> int
    \<Rightarrow> (error \<times> session) + (byte list \<times> session)" where
  "add_service_2 s rn_b clock =
     (let sst = [0x01]; rst = [0x01]; rfl = [0x05] in
      raise_in s (to_bytes (tid s) 4) (\<lambda>oid.
      raise_in s (to_bytes (get_date_time (fst clock)) 4) (\<lambda>tm.
      raise_in s (to_bytes 2 1) (\<lambda>srt.
      let mservice = [0x03] @ [0x11, 0x31, 0x31, 0x31, 0x31, 0x31, 0x31] @ [0x11, 0x31, 0x31]
                       @ [0x11, 0x31, 0x31] @ [0x01] @ [0x01] @ [0x00] @ [0x00]
                       @ [0x11, 0x31, 0x31, 0x31, 0x31, 0x31, 0x31] in
      raise_in s (to_bytes (int (length mservice)) 2) (\<lambda>srl.
      let service' = srt @ srl @ mservice in
      raise_in s (to_bytes (int (length service')) 2) (\<lambda>rl.
      let headService = rl @ rn_b @ rfl @ oid @ tm @ sst @ rst in
      Inr (headService @ service', s)))))))"

definition add_service_16 :: "session \<Rightarrow> byte list \<Rightarrow> (string \<rightharpoonup> pynum) \<Rightarrow> int \<times> int
    \<Rightarrow> (error \<times> session) + (byte list \<times> session)" where
  "add_service_16 s rn_b kwargs clock =
     (let sst = [0x02]; rst = [0x02] in
      raise_in s (to_bytes (tid s) 4) (\<lambda>oid.
      raise_in s (to_bytes (get_date_time (fst clock)) 4) (\<lambda>tm.
      let rfl = [0x05]; s = s\<lparr>pt := [0x01]\<rparr> in
      raise_in s (to_bytes 16 1) (\<lambda>srt.
      let llflags = 1 in
      raise_in s (kwargs_get kwargs ''long'') (\<lambda>long.
      let llflags = (if py_lt_0 long then llflags OR 2 else llflags) in
      raise_in s (kwargs_get kwargs ''lat'') (\<lambda>lat.
      let llflags = (if py_lt_0 lat then llflags OR 4 else llflags) in
      raise_in s (ebind (coordinate long 180) (\<lambda>n. to_bytes n 4)) (\<lambda>long_b.
      raise_in s (ebind (coordinate lat 90) (\<lambda>n. to_bytes n 4)) (\<lambda>lat_b.
      raise_in s (to_bytes (get_date_time (snd clock)) 4) (\<lambda>ntm.
      raise_in s (to_bytes llflags 1) (\<lambda>flags.
      raise_in s (kwargs_get kwargs ''speed'') (\<lambda>speed.
      raise_in s (ebind (ebind (py_mul speed (IntNum 10)) py_int) (\<lambda>n. to_bytes n 2)) (\<lambda>spd.
      raise_in s (to_bytes 0 1) (\<lambda>dir.
      raise_in s (to_bytes 1200 3) (\<lambda>odm.
      let din = [0x01]; src = [0x00];
          mservice = ntm @ lat_b @ long_b @ flags @ spd @ dir @ odm @ din @ src in
      raise_in s (to_bytes (int (length mservice)) 2) (\<lambda>srl.
      let service' = srt @ srl @ mservice in
      raise_in s (to_bytes (int (length service')) 2) (\<lambda>rl.
      let headService = rl @ rn_b @ rfl @ oid @ tm @ sst @ rst in
      Inr (headService @ service', s)))))))))))))))))"

definition add_service_4 :: "session \<Rightarrow> byte list
    \<Rightarrow> (error \<times> session) + (byte list \<times> session)" where
  "add_service_4 s rn_b =
     (let sst = [0x01]; rst = [0x01]; rfl = [0x00];
          s = s\<lparr>pt := [0x01]\<rparr> in
      raise_in s (to_bytes 4 1) (\<lambda>srt.
      raise_in s (to_bytes (tid s) 4) (\<lambda>tid_b.
      let mservice = [0x02] @ [0x02] @ tid_b @ [0x02] @ encode (imei s) in
      raise_in s (to_bytes (int (length mservice)) 2) (\<lambda>srl.
      let service' = srt @ srl @ mservice in
      raise_in s (to_bytes (int (length service')) 2) (\<lambda>rl.
      let headService = rl @ rn_b @ rfl @ sst @ rst in
      Inr (headService @ service', s))))))"

text \<open>
  \<open>add_service\<close> itself: the buffer is created when it is \<open>None\<close>, the record number is
  converted, the branch for \<open>record_types\<close> runs, and the record is appended and the counter
  incremented. With no branch taken, \<open>headService\<close> is unbound at the append, which
  raises UnboundLocalError. \<open>print\<close> is not modelled.
\<close>

definition add_service :: "session \<Rightarrow> int \<Rightarrow> (string \<rightharpoonup> pynum) \<Rightarrow> int \<times> int
    \<Rightarrow> (error \<times> session) + session" where
  "add_service s record_types kwargs clock =
     (let s = (if service s = None then s\<lparr>service := Some []\<rparr> else s) in
      raise_in s (to_bytes (rn s) 2) (\<lambda>rn_b.
      case (if record_types = 1 then add_service_1 s rn_b clock
            else if record_types = 2 then add_service_2 s rn_b clock
            else if record_types = 16 then add_service_16 s rn_b kwargs clock
            else if record_types = 4 then add_service_4 s rn_b
            else Inl (UnboundLocalError, s)) of
        Inl raised \<Rightarrow> Inl raised
      | Inr (record, s) \<Rightarrow>
          (case service s of
             None \<Rightarrow> Inl (TypeError, s)
           | Some buffer \<Rightarrow> Inr (s\<lparr>service := Some (buffer @ record), rn := rn s + 1\<rparr>))))"

text \<open>
  \<open>__init__\<close>: \<open>deviceid\<close> is the integer that \<open>int(deviceid)\<close> gives and \<open>deviceimei\<close>
  the text that \<open>str(deviceimei)\<close> gives. The constructor ends with \<open>add_service(1)\<close>.
\<close>

definition init :: "int \<Rightarrow> string \<Rightarrow> int \<times> int \<Rightarrow> (error \<times> session) + session" where
  "init deviceid deviceimei clock =
     add_service
       \<lparr>tid = deviceid, imei = deviceimei, pt = [0x01], hcs = [0x00], sfrcs = PyInt 0,
        service = None, fdl = [0x00, 0x30, 0x30], pid = 1, rn = 1\<rparr>
       1 Map.empty clock"

section \<open>Assembling a packet: \<open>new_message\<close>\<close>

text \<open>The property \<open>bytes\<close>: the transport header without its checksum.\<close>

definition bytes :: "session \<Rightarrow> error + byte list" where
  "bytes s =
     (let packetPVR = [0x01]; packetSKID = [0x00]; packetFLAGS = [0x00];
          packetHL = [0x0b]; packetHE = [0x00] in
      ebind (to_bytes (pid s) 2) (\<lambda>pid_b.
      Inr (packetPVR @ packetSKID @ packetFLAGS @ packetHL @ packetHE @ fdl s @ pid_b @ pt s)))"

definition new_message :: "session \<Rightarrow> (error \<times> session) + (byte list \<times> session)" where
  "new_message s =
     (case service s of
        None \<Rightarrow> Inl (TypeError, s)
      | Some buffer \<Rightarrow>
          let s = s\<lparr>pid := rn s\<rparr> in
          raise_in s (ebind (data_crc buffer) (\<lambda>crc. to_bytes crc 2)) (\<lambda>sfrcs_b.
          let s = s\<lparr>sfrcs := PyBytes sfrcs_b\<rparr> in
          raise_in s (to_bytes (int (length buffer)) 2) (\<lambda>fdl_b.
          let s = s\<lparr>fdl := fdl_b\<rparr> in
          raise_in s (bytes s) (\<lambda>getBytes.
          raise_in s (ebind (header_crc getBytes) (\<lambda>crc. to_bytes crc 1)) (\<lambda>hcs_b.
          let s = s\<lparr>hcs := hcs_b\<rparr>;
              getBytes = getBytes @ hcs_b @ buffer @ sfrcs_b;
              s = s\<lparr>service := None\<rparr> in
          Inr (getBytes, s))))))"

section \<open>Reading sessions, records and packets\<close>

text \<open>
  What the claims speak of, read off a session or off emitted bytes: the bytes waiting in
  the buffer, the record that one \<open>add_service\<close> call appended, and the fields of a
  record and of a packet at the offsets of the layouts (record: length(2), number(2), ...;
  position record: 15 bytes of record header, type(1), length(2), time(4), latitude(4),
  longitude(4), flags(1); packet: 5 fixed bytes, frame data length(2), packet id(2)).
\<close>

definition pending :: "session \<Rightarrow> byte list" where
  "pending s = (case service s of None \<Rightarrow> [] | Some buffer \<Rightarrow> buffer)"

definition appended :: "session \<Rightarrow> session \<Rightarrow> byte list" where
  "appended s s' = drop (length (pending s)) (pending s')"

definition record_number :: "byte list \<Rightarrow> int" where
  "record_number r = le_int (take 2 (drop 2 r))"




definition frame_data_length :: "byte list \<Rightarrow> int" where
  "frame_data_length packet = le_int (take 2 (drop 5 packet))"

definition packet_id :: "byte list \<Rightarrow> int" where
  "packet_id packet = le_int (take 2 (drop 7 packet))"

text \<open>
  The transport header as the specification lays it out, without its checksum: protocol
  version, security key id, flags, header length, header encoding, frame data length,
  packet id, packet type.
\<close>

definition transport_header :: "int \<Rightarrow> int \<Rightarrow> byte list" where
  "transport_header fdl_value pid_value =
     [0x01, 0x00, 0x00, 0x0B, 0x00] @ le_bytes 2 fdl_value @ le_bytes 2 pid_value @ [0x01]"

text \<open>
  A caller's use of one session: a list of calls, each an \<open>add_service\<close> with its
  arguments or a \<open>new_message\<close>. \<open>assigned_numbers\<close> runs the calls in order, stops at the
  first exception, and collects the record number found in each appended record.
\<close>

datatype request = Append int "string \<rightharpoonup> pynum" "int \<times> int" | Finalize

fun assigned_numbers :: "session \<Rightarrow> request list \<Rightarrow> (error \<times> session) + (int list \<times> session)" where
  "assigned_numbers s [] = Inr ([], s)"
| "assigned_numbers s (Append record_types kwargs clock # reqs) =
     (case add_service s record_types kwargs clock of
        Inl raised \<Rightarrow> Inl raised
      | Inr s' \<Rightarrow>
          (case assigned_numbers s' reqs of
             Inl raised \<Rightarrow> Inl raised
           | Inr (ns, s'') \<Rightarrow> Inr (record_number (appended s s') # ns, s'')))"
| "assigned_numbers s (Finalize # reqs) =
     (case new_message s of
        Inl raised \<Rightarrow> Inl raised
      | Inr (packet, s') \<Rightarrow> assigned_numbers s' reqs)"

section \<open>The script at the end of the source file\<close>

text \<open>
  The script builds \<open>EGTStrack(deviceid = "111111111", deviceimei = "865811111111111")\<close>,
  sends \<open>new_message()\<close>, and then queues position records. Its first steps are traced
  here for a clock that reads 2026-01-01 00:00:00 at every call: \<open>session_1\<close> is the
  object after the constructor, \<open>packet_1\<close> the first packet, \<open>session_2\<close> the object
  after it. \<open>kwargs_1\<close> is the first point of the script's list, its two
  decimal literals read as floats.
\<close>

definition clock_1 :: "int \<times> int" where
  "clock_1 = (504921600000000, 504921600000000)"

definition kwargs_1 :: "string \<rightharpoonup> pynum" where
  "kwargs_1 =
     [''long'' \<mapsto> FloatNum (fl (40055205 / 1000000)),
      ''lat'' \<mapsto> FloatNum (fl (47423826 / 1000000)),
      ''speed'' \<mapsto> IntNum 90]"

definition records_1 :: "byte list" where
  "records_1 =
     [57, 0, 1, 0, 5, 199, 107, 159, 6, 208, 83, 24, 30, 1, 1, 1, 54,
      0, 199, 107, 159, 6, 158, 56, 54, 53, 56, 49, 49, 49, 49, 49,
      49, 49, 49, 49, 49, 49, 48, 48, 48, 48, 48, 48, 48, 48, 48, 48,
      48, 48, 48, 48, 48, 48, 114, 117, 115, 48, 48, 48, 48, 48, 48,
      48, 48, 48, 48, 48, 48, 48, 48, 48]"

definition session_1 :: session where
  "session_1 =
     \<lparr>tid = 111111111, imei = ''865811111111111'', pt = [1], hcs = [0], sfrcs = PyInt 0,
      service = Some records_1, fdl = [0, 48, 48], pid = 1, rn = 2\<rparr>"

definition packet_1 :: "byte list" where
  "packet_1 = [1, 0, 0, 11, 0, 72, 0, 2, 0, 1, 86] @ records_1 @ [155, 51]"

definition session_2 :: session where
  "session_2 =
     \<lparr>tid = 111111111, imei = ''865811111111111'', pt = [1], hcs = [86],
      sfrcs = PyBytes [155, 51], service = None, fdl = [72, 0], pid = 2, rn = 2\<rparr>"

text \<open>
  A second run, from the same constructor call and with the same clock: the caller
  queues the position record of the first point right after the constructor
  (\<open>session_1_position\<close>). \<open>position_record_1\<close> is that record, with number 2.
\<close>

definition position_record_1 :: "byte list" where
  "position_record_1 =
     [24, 0, 2, 0, 5, 199, 107, 159, 6, 208, 83, 24, 30, 2, 2, 16, 21, 0, 208,
      83, 24, 30, 233, 249, 228, 134, 179, 167, 247, 56, 1, 132, 3, 0, 176, 4,
      0, 1, 0]"

definition session_1_position :: session where
  "session_1_position = session_1\<lparr>service := Some (records_1 @ position_record_1), rn := 3\<rparr>"

section \<open>Properties of the checksums\<close>

declare header_crc_loop.simps [simp del] data_crc_loop.simps [simp del]

lemma len8: "length CRC8_TABLE = 256" by (simp add: CRC8_TABLE_def)
lemma len16: "length CRC16_TABLE = 256" by (simp add: CRC16_TABLE_def)
lemma rng8: "list_all (\<lambda>x. 0 \<le> x \<and> x < 256) CRC8_TABLE" by (simp add: CRC8_TABLE_def)
lemma rng16: "list_all (\<lambda>x. 0 \<le> x \<and> x < 65536) CRC16_TABLE" by (simp add: CRC16_TABLE_def)

lemma CRC8_nth: "n < 256 \<Longrightarrow> 0 \<le> CRC8_TABLE ! n \<and> CRC8_TABLE ! n < 256"
  using rng8 len8 by (simp add: list_all_length)

lemma CRC16_nth: "n < 256 \<Longrightarrow> 0 \<le> CRC16_TABLE ! n \<and> CRC16_TABLE ! n < 65536"
  using rng16 len16 by (simp add: list_all_length)

lemma xor_byte_range:
  fixes c :: int and b :: byte
  assumes "0 \<le> c" "c < 256"
  shows "0 \<le> c XOR uint b \<and> c XOR uint b < 256"
proof -
  have "uint b < 2 ^ 8" using uint_bounded [of b] by simp
  then have "c XOR uint b < 2 ^ 8"
    using assms by (intro XOR_upper) simp_all
  moreover have "0 \<le> c XOR uint b" using assms by simp
  ultimately show ?thesis by simp
qed

lemma tuple_index_CRC8:
  "0 \<le> i \<Longrightarrow> i < 256 \<Longrightarrow> tuple_index CRC8_TABLE i = Inr (CRC8_TABLE ! nat i)"
  by (simp add: tuple_index_def len8)

lemma tuple_index_CRC16:
  "0 \<le> i \<Longrightarrow> i < 256 \<Longrightarrow> tuple_index CRC16_TABLE i = Inr (CRC16_TABLE ! nat i)"
  by (simp add: tuple_index_def len16)

lemma header_crc8_step_range:
  fixes b :: byte
  assumes "0 \<le> crc" "crc < 256"
  shows "0 \<le> header_crc8_step crc b \<and> header_crc8_step crc b < 256"
proof -
  from xor_byte_range [OF assms, of b] have "nat (crc XOR uint b) < 256" by linarith
  then show ?thesis unfolding header_crc8_step_def by (rule CRC8_nth)
qed

lemma header_crc_step_eq:
  fixes b :: byte
  assumes "0 \<le> crc" "crc < 256"
  shows "tuple_index CRC8_TABLE (crc XOR uint b) = Inr (header_crc8_step crc b)"
  using xor_byte_range [OF assms, of b] by (simp add: tuple_index_CRC8 header_crc8_step_def)

lemma header_crc_loop_fold:
  "0 \<le> crc \<Longrightarrow> crc < 256 \<Longrightarrow>
   header_crc_loop header crc i = Inr (foldl header_crc8_step crc (drop i header))"
proof (induction header crc i rule: header_crc_loop.induct)
  case (1 header crc i)
  show ?case
  proof (cases "i < length header")
    case True
    let ?c = "header_crc8_step crc (header ! i)"
    have step: "tuple_index CRC8_TABLE (crc XOR uint (header ! i)) = Inr ?c"
      using "1.prems" by (rule header_crc_step_eq)
    have rng: "0 \<le> ?c" "?c < 256"
      using header_crc8_step_range [OF "1.prems", of "header ! i"] by simp_all
    have "header_crc_loop header crc i = header_crc_loop header ?c (i + 1)"
      using True step by (subst header_crc_loop.simps) simp
    also have "\<dots> = Inr (foldl header_crc8_step ?c (drop (i + 1) header))"
      using "1.IH" [OF True step rng] .
    also have "drop i header = header ! i # drop (i + 1) header"
      using True by (simp add: Cons_nth_drop_Suc)
    then have "foldl header_crc8_step ?c (drop (i + 1) header)
                 = foldl header_crc8_step crc (drop i header)"
      by simp
    finally show ?thesis .
  next
    case False
    then show ?thesis by (subst header_crc_loop.simps) simp
  qed
qed

lemma payload_step_range:
  fixes b :: byte
  assumes "0 \<le> crc" "crc < 65536"
  shows "0 \<le> payload_crc16_step crc b \<and> payload_crc16_step crc b < 65536"
proof -
  have hi: "0 \<le> drop_bit 8 crc" "drop_bit 8 crc < 256"
    using assms by (simp_all add: drop_bit_eq_div)
  from xor_byte_range [OF hi, of b] have "nat (drop_bit 8 crc XOR uint b) < 256" by linarith
  then have t: "0 \<le> CRC16_TABLE ! nat (drop_bit 8 crc XOR uint b)"
      "CRC16_TABLE ! nat (drop_bit 8 crc XOR uint b) < 2 ^ 16"
    using CRC16_nth by simp_all
  have l: "0 \<le> push_bit 8 crc mod 0x10000" "push_bit 8 crc mod 0x10000 < 2 ^ 16"
    by simp_all
  have "(push_bit 8 crc mod 0x10000) XOR (CRC16_TABLE ! nat (drop_bit 8 crc XOR uint b)) < 2 ^ 16"
    using l t by (intro XOR_upper)
  moreover have "0 \<le> (push_bit 8 crc mod 0x10000) XOR (CRC16_TABLE ! nat (drop_bit 8 crc XOR uint b))"
    using l(1) t(1) by simp
  ultimately show ?thesis by (simp add: payload_crc16_step_def)
qed

lemma data_crc_step_eq:
  fixes b :: byte
  assumes "0 \<le> crc" "crc < 65536"
  shows "tuple_index CRC16_TABLE (drop_bit 8 crc XOR uint b)
           = Inr (CRC16_TABLE ! nat (drop_bit 8 crc XOR uint b))"
proof -
  have hi: "0 \<le> drop_bit 8 crc" "drop_bit 8 crc < 256"
    using assms by (simp_all add: drop_bit_eq_div)
  from xor_byte_range [OF hi, of b] show ?thesis by (simp add: tuple_index_CRC16)
qed

lemma data_crc_loop_fold:
  "0 \<le> crc \<Longrightarrow> crc < 65536 \<Longrightarrow>
   data_crc_loop data crc i = Inr (foldl payload_crc16_step crc (drop i data))"
proof (induction data crc i rule: data_crc_loop.induct)
  case (1 data crc i)
  show ?case
  proof (cases "i < length data")
    case True
    let ?t = "CRC16_TABLE ! nat (drop_bit 8 crc XOR uint (data ! i))"
    let ?c = "payload_crc16_step crc (data ! i)"
    have step: "tuple_index CRC16_TABLE (drop_bit 8 crc XOR uint (data ! i)) = Inr ?t"
      using "1.prems" by (rule data_crc_step_eq)
    have c: "(push_bit 8 crc mod 0x10000) XOR ?t = ?c"
      by (simp add: payload_crc16_step_def)
    have rng: "0 \<le> ?c" "?c < 65536"
      using payload_step_range [OF "1.prems", of "data ! i"] by simp_all
    have "data_crc_loop data crc i = data_crc_loop data ?c (i + 1)"
      using True step c by (subst data_crc_loop.simps) simp
    also have "\<dots> = Inr (foldl payload_crc16_step ?c (drop (i + 1) data))"
      using "1.IH" [OF True step] rng c by simp
    also have "drop i data = data ! i # drop (i + 1) data"
      using True by (simp add: Cons_nth_drop_Suc)
    then have "foldl payload_crc16_step ?c (drop (i + 1) data)
                 = foldl payload_crc16_step crc (drop i data)"
      by simp
    finally show ?thesis .
  next
    case False
    then show ?thesis by (subst data_crc_loop.simps) simp
  qed
qed

lemma header_crc8_range: "0 \<le> header_crc8 bs \<and> header_crc8 bs < 256"
proof -
  have "0 \<le> c \<Longrightarrow> c < 256 \<Longrightarrow>
        0 \<le> foldl header_crc8_step c bs \<and> foldl header_crc8_step c bs < 256" for c
    by (induction bs arbitrary: c) (simp_all add: header_crc8_step_range)
  then show ?thesis by (simp add: header_crc8_def)
qed

lemma payload_crc16_range: "0 \<le> payload_crc16 bs \<and> payload_crc16 bs < 65536"
proof -
  have "0 \<le> c \<Longrightarrow> c < 65536 \<Longrightarrow>
        0 \<le> foldl payload_crc16_step c bs \<and> foldl payload_crc16_step c bs < 65536" for c
    by (induction bs arbitrary: c) (simp_all add: payload_step_range)
  then show ?thesis by (simp add: payload_crc16_def)
qed

lemma header_crc_eq: "header_crc bs = Inr (header_crc8 bs)"
  by (simp add: header_crc_def header_crc8_def header_crc_loop_fold)

lemma data_crc_eq: "data_crc bs = Inr (payload_crc16 bs)"
  by (simp add: data_crc_def payload_crc16_def data_crc_loop_fold)

text \<open>
  C2. For every byte sequence, \<open>data_crc\<close> returns, without raising, the left fold from
  0xFFFF with the step \<open>((crc << 8) mod 0x10000) XOR TABLE16[(crc >> 8) XOR byte]\<close>, and
  \<open>header_crc\<close> the left fold from 0xFF with the step \<open>TABLE8[crc XOR byte]\<close>; on the
  empty sequence each returns its initial value.
\<close>

theorem crc_is_table_fold:
  "data_crc b = Inr (payload_crc16 b) \<and> header_crc b = Inr (header_crc8 b)
   \<and> payload_crc16 b = foldl payload_crc16_step 0xFFFF b
   \<and> header_crc8 b = foldl header_crc8_step 0xFF b
   \<and> data_crc [] = Inr 0xFFFF \<and> header_crc [] = Inr 0xFF"
  by (simp add: header_crc_eq data_crc_eq header_crc8_def payload_crc16_def)

section \<open>Conversions\<close>

lemma length_le_bytes [simp]: "length (le_bytes k n) = k"
  by (induction k arbitrary: n) simp_all

lemma le_int_le_bytes: "0 \<le> n \<Longrightarrow> n < 256 ^ k \<Longrightarrow> le_int (le_bytes k n) = n"
proof (induction k arbitrary: n)
  case 0
  then show ?case by simp
next
  case (Suc k)
  have "0 \<le> n div 256" using Suc.prems by simp
  moreover have "n div 256 < 256 ^ k"
    using Suc.prems by (simp add: div_less_iff_less_mult mult.commute)
  ultimately have "le_int (le_bytes k (n div 256)) = n div 256" by (rule Suc.IH)
  then show ?case by (simp add: uint_word_of_int)
qed

lemma le_bytes_1: "le_bytes 1 n = [word_of_int n]"
  by simp

lemma le_bytes_2: "le_bytes 2 n = [word_of_int n, word_of_int (n div 256)]"
  by (simp add: numeral_2_eq_2)

lemma to_bytes_Inr_iff:
  "to_bytes n k = Inr bs \<longleftrightarrow> 0 \<le> n \<and> n < 256 ^ k \<and> bs = le_bytes k n"
  by (auto simp: to_bytes_def)

lemma to_bytes_Inl_iff:
  "to_bytes n k = Inl e \<longleftrightarrow> \<not> (0 \<le> n \<and> n < 256 ^ k) \<and> e = OverflowError"
  by (auto simp: to_bytes_def)

lemma to_bytes_fits: "0 \<le> n \<Longrightarrow> n < 256 ^ k \<Longrightarrow> to_bytes n k = Inr (le_bytes k n)"
  by (simp add: to_bytes_def)

lemma crc16_to_bytes:
  "ebind (data_crc b) (\<lambda>crc. to_bytes crc 2) = Inr (le_bytes 2 (payload_crc16 b))"
  using payload_crc16_range [of b] by (simp add: ebind_def data_crc_eq to_bytes_def)

lemma crc8_to_bytes:
  "ebind (header_crc b) (\<lambda>crc. to_bytes crc 1) = Inr (le_bytes 1 (header_crc8 b))"
  using header_crc8_range [of b] by (simp add: ebind_def header_crc_eq to_bytes_def)

lemma to_bytes_overflow: "256 ^ k \<le> n \<Longrightarrow> to_bytes n k = Inl OverflowError"
  by (simp add: to_bytes_def)

lemma to_bytes_negative: "n < 0 \<Longrightarrow> to_bytes n k = Inl OverflowError"
  by (simp add: to_bytes_def)

lemma bytes_fits:
  "0 \<le> pid s \<Longrightarrow> pid s \<le> 65535 \<Longrightarrow>
   bytes s = Inr ([0x01, 0x00, 0x00, 0x0B, 0x00] @ fdl s @ le_bytes 2 (pid s) @ pt s)"
  by (simp add: bytes_def ebind_def to_bytes_fits del: le_bytes.simps)

lemma new_message_fits:
  assumes "service s = Some buffer" "length buffer \<le> 65535" "0 \<le> rn s" "rn s \<le> 65535"
  shows "new_message s =
     Inr ([0x01, 0x00, 0x00, 0x0B, 0x00] @ le_bytes 2 (int (length buffer)) @ le_bytes 2 (rn s) @ pt s
            @ le_bytes 1 (header_crc8 ([0x01, 0x00, 0x00, 0x0B, 0x00] @ le_bytes 2 (int (length buffer)) @ le_bytes 2 (rn s) @ pt s))
            @ buffer @ le_bytes 2 (payload_crc16 buffer),
          s\<lparr>pid := rn s, sfrcs := PyBytes (le_bytes 2 (payload_crc16 buffer)),
            fdl := le_bytes 2 (int (length buffer)),
            hcs := le_bytes 1 (header_crc8 ([0x01, 0x00, 0x00, 0x0B, 0x00] @ le_bytes 2 (int (length buffer)) @ le_bytes 2 (rn s) @ pt s)),
            service := None\<rparr>)"
  using assms
  by (simp add: new_message_def raise_in_def crc16_to_bytes crc8_to_bytes bytes_fits
      to_bytes_fits Let_def del: le_bytes.simps One_nat_def)

lemma new_message_None: "service s = None \<Longrightarrow> new_message s = Inl (TypeError, s)"
  by (simp add: new_message_def)

lemma new_message_too_long:
  assumes "service s = Some buffer" "65535 < length buffer"
  shows "new_message s =
     Inl (OverflowError, s\<lparr>pid := rn s, sfrcs := PyBytes (le_bytes 2 (payload_crc16 buffer))\<rparr>)"
  using assms
  by (simp add: new_message_def raise_in_def crc16_to_bytes to_bytes_overflow Let_def
      del: le_bytes.simps)

lemma new_message_Inr:
  assumes "new_message s = Inr (packet, s')"
  shows "service s' = None \<and> rn s' = rn s \<and> service s \<noteq> None"
  using assms
  by (auto simp: new_message_def raise_in_def Let_def split: option.splits sum.splits)

section \<open>What a successful \<open>add_service\<close> does\<close>

lemma raise_in_Inr_iff:
  "raise_in s m f = Inr y \<longleftrightarrow> (\<exists>x. m = Inr x \<and> f x = Inr y)"
  by (cases m) (simp_all add: raise_in_def)

lemma add_service_1_Inr:
  assumes "add_service_1 s rn_b clock = Inr (record, s')" "length rn_b = 2"
  shows "take 2 (drop 2 record) = rn_b \<and> s' = s\<lparr>pt := [0x01]\<rparr>
         \<and> length record = 57 + length (imei s)"
  using assms
  by (auto simp: add_service_1_def raise_in_Inr_iff to_bytes_Inr_iff Let_def encode_def)

lemma add_service_2_Inr:
  assumes "add_service_2 s rn_b clock = Inr (record, s')" "length rn_b = 2"
  shows "take 2 (drop 2 record) = rn_b \<and> s' = s \<and> length record = 43"
  using assms
  by (auto simp: add_service_2_def raise_in_Inr_iff to_bytes_Inr_iff Let_def)

lemma add_service_4_Inr:
  assumes "add_service_4 s rn_b = Inr (record, s')" "length rn_b = 2"
  shows "take 2 (drop 2 record) = rn_b \<and> s' = s\<lparr>pt := [0x01]\<rparr>
         \<and> length record = 17 + length (imei s)"
  using assms
  by (auto simp: add_service_4_def raise_in_Inr_iff to_bytes_Inr_iff Let_def encode_def)

lemma ebind_Inr_iff:
  "ebind m f = Inr y \<longleftrightarrow> (\<exists>x. m = Inr x \<and> f x = Inr y)"
  by (cases m) (simp_all add: ebind_def)

lemma add_service_16_Inr:
  assumes "add_service_16 s rn_b kwargs clock = Inr (record, s')" "length rn_b = 2"
  shows "take 2 (drop 2 record) = rn_b \<and> s' = s\<lparr>pt := [0x01]\<rparr> \<and> length record = 39"
  using assms
  by (auto simp: add_service_16_def raise_in_Inr_iff ebind_Inr_iff to_bytes_Inr_iff Let_def)

lemma add_service_branch:
  fixes record_types :: int
  assumes "(if record_types = 1 then add_service_1 s rn_b clock
            else if record_types = 2 then add_service_2 s rn_b clock
            else if record_types = 16 then add_service_16 s rn_b kwargs clock
            else if record_types = 4 then add_service_4 s rn_b
            else Inl (UnboundLocalError, s)) = Inr (record, s')"
    and "length rn_b = 2"
  shows "record_types \<in> {1, 2, 4, 16} \<and> take 2 (drop 2 record) = rn_b
         \<and> s' = (if record_types = 2 then s else s\<lparr>pt := [0x01]\<rparr>)"
  using assms
  by (auto split: if_splits dest: add_service_1_Inr add_service_2_Inr add_service_4_Inr
      add_service_16_Inr)

lemma add_service_Inr:
  assumes "add_service s record_types kwargs clock = Inr s'"
  shows "record_types \<in> {1, 2, 4, 16} \<and> 0 \<le> rn s \<and> rn s \<le> 65535 \<and> rn s' = rn s + 1
         \<and> record_number (appended s s') = rn s
         \<and> pending s' = pending s @ appended s s' \<and> service s' \<noteq> None
         \<and> 4 \<le> length (appended s s')
         \<and> tid s' = tid s \<and> imei s' = imei s
         \<and> pt s' = (if record_types = 2 then pt s else [0x01])"
proof -
  define s0 where "s0 = (if service s = None then s\<lparr>service := Some []\<rparr> else s)"
  have s0: "service s0 = Some (pending s)" "rn s0 = rn s" "tid s0 = tid s" "imei s0 = imei s"
    "pt s0 = pt s"
    by (auto simp: s0_def pending_def)
  let ?branch = "\<lambda>rn_b. if record_types = 1 then add_service_1 s0 rn_b clock
          else if record_types = 2 then add_service_2 s0 rn_b clock
          else if record_types = 16 then add_service_16 s0 rn_b kwargs clock
          else if record_types = 4 then add_service_4 s0 rn_b
          else Inl (UnboundLocalError, s0)"
  from assms obtain rn_b where
    rn_b: "to_bytes (rn s) 2 = Inr rn_b" and
    rest: "(case ?branch rn_b of Inl raised \<Rightarrow> Inl raised
            | Inr (r, s1) \<Rightarrow>
                (case service s1 of None \<Rightarrow> Inl (TypeError, s1)
                 | Some buffer \<Rightarrow> Inr (s1\<lparr>service := Some (buffer @ r), rn := rn s1 + 1\<rparr>)))
           = Inr s'"
    unfolding add_service_def Let_def s0_def [symmetric] s0 raise_in_Inr_iff by blast
  from rest obtain r s1 where
    br: "?branch rn_b = Inr (r, s1)" and
    fin: "(case service s1 of None \<Rightarrow> Inl (TypeError, s1)
           | Some buffer \<Rightarrow> Inr (s1\<lparr>service := Some (buffer @ r), rn := rn s1 + 1\<rparr>)) = Inr s'"
    by (cases "?branch rn_b") auto
  from rn_b have rng: "0 \<le> rn s" "rn s < 65536" and rn_b_eq: "rn_b = le_bytes 2 (rn s)"
    by (simp_all add: to_bytes_Inr_iff)
  then have len: "length rn_b = 2" by simp
  from add_service_branch [OF br len]
  have ty: "record_types \<in> {1, 2, 4, 16}" and num: "take 2 (drop 2 r) = rn_b"
    and s1: "s1 = (if record_types = 2 then s0 else s0\<lparr>pt := [0x01]\<rparr>)"
    by simp_all
  from s1 s0 have s1': "service s1 = Some (pending s)" "rn s1 = rn s" "tid s1 = tid s"
    "imei s1 = imei s" "pt s1 = (if record_types = 2 then pt s else [0x01])"
    by (simp_all split: if_splits)
  from fin s1' have s': "s' = s1\<lparr>service := Some (pending s @ r), rn := rn s + 1\<rparr>"
    by simp
  have pend: "pending s' = pending s @ r" and some: "service s' \<noteq> None"
    by (simp_all add: pending_def s')
  have app: "appended s s' = r"
    by (simp add: appended_def pend)
  have fields: "rn s' = rn s + 1" "tid s' = tid s" "imei s' = imei s"
    "pt s' = (if record_types = 2 then pt s else [0x01])"
    using s1' by (simp_all add: s')
  have "length (take 2 (drop 2 r)) = 2" using num len by simp
  then have long: "4 \<le> length r" by simp
  have "record_number r = rn s"
    using rng by (simp add: record_number_def num rn_b_eq le_int_le_bytes del: le_bytes.simps)
  with long ty rng fields pend some show ?thesis
    unfolding app by simp
qed

section \<open>The trace of the script\<close>

lemma init_session_1: "init 111111111 ''865811111111111'' clock_1 = Inr session_1"
  by code_simp

lemma new_message_session_1: "new_message session_1 = Inr (packet_1, session_2)"
  by code_simp

lemma add_service_session_1_position:
  "add_service session_1 16 kwargs_1 clock_1 = Inr session_1_position"
  by code_simp

section \<open>Packets\<close>

lemma new_message_Inl:
  assumes "new_message s = Inl (e, s')"
  shows "service s = None \<and> e = TypeError
         \<or> 65535 < length (pending s) \<and> e = OverflowError
         \<or> (rn s < 0 \<or> 65535 < rn s) \<and> e = OverflowError"
proof (cases "service s")
  case None
  with assms show ?thesis by (simp add: new_message_None)
next
  case (Some buffer)
  show ?thesis
  proof (cases "length buffer \<le> 65535 \<and> 0 \<le> rn s \<and> rn s \<le> 65535")
    case True
    with Some assms show ?thesis by (simp add: new_message_fits del: le_bytes.simps)
  next
    case False
    show ?thesis
    proof (cases "65535 < length buffer")
      case True
      with Some assms show ?thesis by (simp add: new_message_too_long pending_def)
    next
      case short: False
      with False have out: "rn s < 0 \<or> 65535 < rn s" by auto
      then have "to_bytes (rn s) 2 = Inl OverflowError"
        by (auto simp: to_bytes_def)
      then have "bytes (s\<lparr>pid := rn s, sfrcs := x, fdl := y\<rparr>) = Inl OverflowError" for x y
        by (simp add: bytes_def ebind_def)
      with Some assms short have "e = OverflowError"
        by (simp add: new_message_def raise_in_def crc16_to_bytes to_bytes_fits Let_def
            del: le_bytes.simps)
      with out show ?thesis by simp
    qed
  qed
qed

text \<open>
  C10. For every byte sequence, \<open>header_crc\<close> returns an integer from 0 to 255 and
  \<open>data_crc\<close> one from 0 to 65535, so the 1-byte and 2-byte conversions of them that
  \<open>new_message\<close> makes succeed; \<open>new_message\<close> raises only when the buffer is \<open>None\<close>,
  when the buffer is longer than 65535 bytes, or when the counter does not fit two bytes.
\<close>

theorem checksums_fit_their_fields:
  "(\<exists>c. header_crc b = Inr c \<and> 0 \<le> c \<and> c \<le> 255
        \<and> ebind (header_crc b) (\<lambda>crc. to_bytes crc 1) = Inr [word_of_int c])
   \<and> (\<exists>d. data_crc b = Inr d \<and> 0 \<le> d \<and> d \<le> 65535
        \<and> ebind (data_crc b) (\<lambda>crc. to_bytes crc 2) = Inr [word_of_int d, word_of_int (d div 256)])
   \<and> (new_message s = Inl (e, s') \<longrightarrow>
        service s = None \<or> 65535 < length (pending s) \<or> rn s < 0 \<or> 65535 < rn s)"
proof -
  have "\<exists>c. header_crc b = Inr c \<and> 0 \<le> c \<and> c \<le> 255
        \<and> ebind (header_crc b) (\<lambda>crc. to_bytes crc 1) = Inr [word_of_int c]"
    using header_crc8_range [of b] by (simp add: header_crc_eq ebind_def to_bytes_def)
  moreover have "\<exists>d. data_crc b = Inr d \<and> 0 \<le> d \<and> d \<le> 65535
        \<and> ebind (data_crc b) (\<lambda>crc. to_bytes crc 2) = Inr [word_of_int d, word_of_int (d div 256)]"
    using payload_crc16_range [of b] by (simp add: data_crc_eq ebind_def to_bytes_def le_bytes_2)
  moreover have "new_message s = Inl (e, s') \<longrightarrow>
        service s = None \<or> 65535 < length (pending s) \<or> rn s < 0 \<or> 65535 < rn s"
    using new_message_Inl [of s e s'] by blast
  ultimately show ?thesis by blast
qed

theorem checksums_fit_their_fields_witness:
  "new_message session_2 = Inl (TypeError, session_2) \<and> service session_2 = None
   \<and> header_crc [1, 0, 0, 11, 0, 72, 0, 2, 0, 1] = Inr 86
   \<and> data_crc records_1 = Inr 13211"
proof -
  have fails: "new_message session_2 = Inl (TypeError, session_2)"
    by (simp add: new_message_None session_2_def)
  have h: "header_crc [1, 0, 0, 11, 0, 72, 0, 2, 0, 1] = Inr 86" by code_simp
  have d: "data_crc records_1 = Inr 13211" by code_simp
  from checksums_fit_their_fields [of "[1, 0, 0, 11, 0, 72, 0, 2, 0, 1]" session_2 TypeError session_2] fails
  have "service session_2 = None \<or> 65535 < length (pending session_2) \<or> rn session_2 < 0 \<or> 65535 < rn session_2"
    by blast
  then have "service session_2 = None" by (simp add: session_2_def pending_def)
  with fails h d show ?thesis by simp
qed

section \<open>Record types without a branch\<close>

lemma add_service_no_branch:
  fixes record_types :: int
  assumes "record_types \<notin> {1, 2, 4, 16}"
  shows "add_service s record_types kwargs clock =
           Inl (if 0 \<le> rn s \<and> rn s \<le> 65535 then UnboundLocalError else OverflowError,
                s\<lparr>service := Some (pending s)\<rparr>)"
proof -
  have s0: "(if service s = None then s\<lparr>service := Some []\<rparr> else s) = s\<lparr>service := Some (pending s)\<rparr>"
    by (cases "service s") (simp_all add: pending_def)
  show ?thesis
    using assms unfolding add_service_def s0 Let_def
    by (simp add: raise_in_def to_bytes_def)
qed

text \<open>
  C4, as amended. For every session, \<open>add_service\<close> with a record type other than 1, 2,
  4 and 16 raises: UnboundLocalError when the counter fits two bytes (the source has no
  error of its own for an unsupported type), OverflowError otherwise. The bytes in the
  buffer and every other field are unchanged, and a buffer that was not \<open>None\<close> is left
  as it was; a buffer that was \<open>None\<close> is left as the empty \<open>bytes\<close> object.
\<close>

theorem unsupported_record_type:
  fixes record_types :: int
  assumes "record_types \<notin> {1, 2, 4, 16}"
  shows "add_service s record_types kwargs clock =
           Inl (if 0 \<le> rn s \<and> rn s \<le> 65535 then UnboundLocalError else OverflowError,
                s\<lparr>service := Some (pending s)\<rparr>)
         \<and> pending (s\<lparr>service := Some (pending s)\<rparr>) = pending s
         \<and> (service s \<noteq> None \<longrightarrow> s\<lparr>service := Some (pending s)\<rparr> = s)"
  using add_service_no_branch [OF assms] by (auto simp: pending_def)

theorem unsupported_record_type_witness:
  "(99::int) \<notin> {1, 2, 4, 16}
   \<and> add_service session_1 99 Map.empty clock_1 = Inl (UnboundLocalError, session_1)"
proof -
  have t: "(99::int) \<notin> {1, 2, 4, 16}" by simp
  have "service session_1 \<noteq> None" "0 \<le> rn session_1 \<and> rn session_1 \<le> 65535"
    by (simp_all add: session_1_def)
  with unsupported_record_type [OF t, of session_1 Map.empty clock_1] t show ?thesis
    by simp
qed

text \<open>
  C4 as stated fails after a packet has been sent: on \<open>session_2\<close> the buffer is
  \<open>None\<close> and \<open>new_message\<close> raises, but after the failed \<open>add_service(99)\<close> the buffer
  is the empty \<open>bytes\<close> object and \<open>new_message\<close> returns a packet.
\<close>

theorem unsupported_record_type_counterexample:
  "service session_2 = None
   \<and> add_service session_2 99 Map.empty clock_1
       = Inl (UnboundLocalError, session_2\<lparr>service := Some []\<rparr>)
   \<and> new_message session_2 = Inl (TypeError, session_2)
   \<and> \<not> isl (new_message (session_2\<lparr>service := Some []\<rparr>))"
proof -
  have none: "service session_2 = None" by (simp add: session_2_def)
  have "add_service session_2 99 Map.empty clock_1
         = Inl (UnboundLocalError, session_2\<lparr>service := Some (pending session_2)\<rparr>)"
    by (subst add_service_no_branch) (simp_all add: session_2_def)
  moreover have "pending session_2 = []" by (simp add: pending_def none)
  moreover have "\<not> isl (new_message (session_2\<lparr>service := Some []\<rparr>))"
    by (subst new_message_fits [of _ "[]"]) (simp_all add: session_2_def)
  ultimately show ?thesis using none by (simp add: new_message_None)
qed

section \<open>Record numbers\<close>

text \<open>
  C3. When a caller's calls on one session all return, the records appended by the
  \<open>add_service\<close> calls carry, in order, the numbers from the record counter's value before
  the first call up to its value after the last call minus one: each the previous plus 1,
  none skipped and none repeated, one for each \<open>add_service\<close> call, whatever
  \<open>new_message\<close> calls lie between them (\<open>new_message\<close> never changes the counter).
\<close>

theorem record_numbers_consecutive:
  assumes "assigned_numbers s reqs = Inr (ns, s')"
  shows "ns = [rn s .. rn s' - 1] \<and> rn s' = rn s + int (length ns)
         \<and> length ns = length (filter (\<lambda>r. r \<noteq> Finalize) reqs)"
  using assms
proof (induction s reqs arbitrary: ns rule: assigned_numbers.induct)
  case (1 s)
  then show ?case by simp
next
  case (2 s record_types kwargs clock reqs)
  from "2.prems" obtain s1 ns1 where
    app: "add_service s record_types kwargs clock = Inr s1" and
    rest: "assigned_numbers s1 reqs = Inr (ns1, s')" and
    ns: "ns = record_number (appended s s1) # ns1"
  proof (cases "add_service s record_types kwargs clock")
    case (Inl raised)
    with "2.prems" show ?thesis by simp
  next
    case (Inr s1)
    show ?thesis
    proof (cases "assigned_numbers s1 reqs")
      case (Inl raised)
      with Inr "2.prems" show ?thesis by simp
    next
      case inner: (Inr result)
      obtain ns1 s2 where "result = (ns1, s2)" by (cases result)
      with Inr inner "2.prems" that show ?thesis by simp
    qed
  qed
  from add_service_Inr [OF app] have num: "record_number (appended s s1) = rn s"
    and inc: "rn s1 = rn s + 1" by simp_all
  from "2.IH" [OF app rest] have ih: "ns1 = [rn s1 .. rn s' - 1]"
    "rn s' = rn s1 + int (length ns1)" "length ns1 = length (filter (\<lambda>r. r \<noteq> Finalize) reqs)"
    by blast+
  have "rn s \<le> rn s' - 1" using ih(2) inc by linarith
  then have "[rn s .. rn s' - 1] = rn s # [rn s + 1 .. rn s' - 1]"
    by (rule upto_rec1)
  then have "ns = [rn s .. rn s' - 1]"
    unfolding ns num ih(1) inc by (rule sym)
  moreover have "rn s' = rn s + int (length ns)"
    unfolding ns ih(2) inc by simp
  moreover have "length ns = length (filter (\<lambda>r. r \<noteq> Finalize) (Append record_types kwargs clock # reqs))"
    unfolding ns using ih(3) by simp
  ultimately show ?case by blast
next
  case (3 s reqs)
  from "3.prems" obtain packet s1 where
    fin: "new_message s = Inr (packet, s1)" and
    rest: "assigned_numbers s1 reqs = Inr (ns, s')"
  proof (cases "new_message s")
    case (Inl raised)
    with "3.prems" show ?thesis by simp
  next
    case (Inr result)
    obtain packet s1 where "result = (packet, s1)" by (cases result)
    with Inr "3.prems" that show ?thesis by simp
  qed
  from new_message_Inr [OF fin] have same: "rn s1 = rn s" by blast
  have skip: "filter (\<lambda>r. r \<noteq> Finalize) (Finalize # reqs) = filter (\<lambda>r. r \<noteq> Finalize) reqs"
    by simp
  from "3.IH" [OF fin refl rest] show ?case unfolding same skip .
qed

theorem record_numbers_consecutive_witness:
  "\<not> isl (assigned_numbers session_1
            [Append 16 kwargs_1 clock_1, Finalize, Append 2 Map.empty clock_1,
             Append 4 Map.empty clock_1])
   \<and> fst (projr (assigned_numbers session_1
            [Append 16 kwargs_1 clock_1, Finalize, Append 2 Map.empty clock_1,
             Append 4 Map.empty clock_1])) = [2, 3, 4]"
proof -
  let ?run = "assigned_numbers session_1
            [Append 16 kwargs_1 clock_1, Finalize, Append 2 Map.empty clock_1,
             Append 4 Map.empty clock_1]"
  have ok: "\<not> isl ?run" by code_simp
  then obtain ns s' where run: "?run = Inr (ns, s')"
    by (cases ?run) auto
  from record_numbers_consecutive [OF run]
  have ns: "ns = [rn session_1 .. rn s' - 1]" and rn: "rn s' = rn session_1 + int (length ns)"
    and "length ns = length (filter (\<lambda>r. r \<noteq> Finalize) [Append 16 kwargs_1 clock_1, Finalize,
           Append 2 Map.empty clock_1, Append 4 Map.empty clock_1])"
    by blast+
  then have "length ns = 3" by simp
  with rn have "rn s' = 5" by (simp add: session_1_def)
  with ns have "ns = [2 .. 4]" by (simp add: session_1_def)
  also have "[2 .. 4] = [2, 3, (4::int)]" by (simp add: upto_rec1)
  finally show ?thesis using ok run by simp
qed

section \<open>The record counter\<close>

lemma add_service_counter_overflow:
  assumes "rn s < 0 \<or> 65535 < rn s"
  shows "add_service s record_types kwargs clock
           = Inl (OverflowError, s\<lparr>service := Some (pending s)\<rparr>)"
proof -
  have s0: "(if service s = None then s\<lparr>service := Some []\<rparr> else s) = s\<lparr>service := Some (pending s)\<rparr>"
    by (cases "service s") (simp_all add: pending_def)
  have "to_bytes (rn s) 2 = Inl OverflowError"
    using assms by (auto simp: to_bytes_def)
  then show ?thesis
    unfolding add_service_def s0 Let_def by (simp add: raise_in_def)
qed

lemma init_Inr:
  assumes "init deviceid deviceimei clock = Inr s"
  shows "record_number (pending s) = 1 \<and> rn s = 2 \<and> service s \<noteq> None
         \<and> 4 \<le> length (pending s) \<and> tid s = deviceid \<and> imei s = deviceimei \<and> pt s = [0x01]"
proof -
  let ?s = "\<lparr>tid = deviceid, imei = deviceimei, pt = [0x01], hcs = [0x00], sfrcs = PyInt 0,
        service = None, fdl = [0x00, 0x30, 0x30], pid = 1, rn = 1\<rparr>"
  from assms have "add_service ?s 1 Map.empty clock = Inr s" by (simp add: init_def)
  from add_service_Inr [OF this] have
    "record_number (appended ?s s) = rn ?s" "rn s = rn ?s + 1" "service s \<noteq> None"
    "4 \<le> length (appended ?s s)"
    "tid s = tid ?s" "imei s = imei ?s" "pt s = [0x01]"
    by simp_all
  moreover have "appended ?s s = pending s"
    by (simp add: appended_def pending_def)
  ultimately show ?thesis by simp
qed

text \<open>
  C8, as amended. The record counter is an unbounded integer: it is 1 when the
  constructor appends its own record (which gets number 1 and leaves the counter at 2),
  every \<open>add_service\<close> that returns has written the counter into the record and left
  it 1 higher, and it never wraps. An \<open>add_service\<close> returns only while the counter is at
  most 65535; once it is above, every \<open>add_service\<close> raises OverflowError and appends
  nothing.
\<close>

theorem record_counter_does_not_wrap:
  "(add_service s record_types kwargs clock = Inr s' \<longrightarrow>
      0 \<le> rn s \<and> rn s \<le> 65535 \<and> record_number (appended s s') = rn s \<and> rn s' = rn s + 1)
   \<and> (65535 < rn s \<longrightarrow>
        add_service s record_types kwargs clock
          = Inl (OverflowError, s\<lparr>service := Some (pending s)\<rparr>))
   \<and> (init deviceid deviceimei clock0 = Inr s0 \<longrightarrow> record_number (pending s0) = 1 \<and> rn s0 = 2)"
proof -
  have "0 \<le> rn s \<and> rn s \<le> 65535 \<and> record_number (appended s s') = rn s \<and> rn s' = rn s + 1"
    if "add_service s record_types kwargs clock = Inr s'"
    using add_service_Inr [OF that] by blast
  moreover have "add_service s record_types kwargs clock
          = Inl (OverflowError, s\<lparr>service := Some (pending s)\<rparr>)" if "65535 < rn s"
    using that by (intro add_service_counter_overflow) simp
  moreover have "record_number (pending s0) = 1 \<and> rn s0 = 2"
    if "init deviceid deviceimei clock0 = Inr s0"
    using init_Inr [OF that] by blast
  ultimately show ?thesis by blast
qed

theorem record_counter_does_not_wrap_witness:
  "\<not> isl (add_service session_2 16 kwargs_1 clock_1)
   \<and> record_number (appended session_2 (projr (add_service session_2 16 kwargs_1 clock_1))) = 2
   \<and> rn (projr (add_service session_2 16 kwargs_1 clock_1)) = 3
   \<and> add_service (session_2\<lparr>rn := 65536\<rparr>) 16 kwargs_1 clock_1
       = Inl (OverflowError, session_2\<lparr>rn := 65536, service := Some []\<rparr>)
   \<and> init 111111111 ''865811111111111'' clock_1 = Inr session_1
   \<and> record_number (pending session_1) = 1 \<and> rn session_1 = 2"
proof -
  have ok: "\<not> isl (add_service session_2 16 kwargs_1 clock_1)" by code_simp
  then obtain s' where app: "add_service session_2 16 kwargs_1 clock_1 = Inr s'"
    by (cases "add_service session_2 16 kwargs_1 clock_1") auto
  have big: "65535 < rn (session_2\<lparr>rn := 65536\<rparr>)" by simp
  from record_counter_does_not_wrap
    [of session_2 16 kwargs_1 clock_1 s' 111111111 "''865811111111111''" clock_1 session_1]
    app init_session_1
  have a: "record_number (appended session_2 s') = 2" "rn s' = 3"
    "record_number (pending session_1) = 1" "rn session_1 = 2"
    by (simp_all add: session_2_def)
  from record_counter_does_not_wrap
    [of "session_2\<lparr>rn := 65536\<rparr>" 16 kwargs_1 clock_1 s' 111111111 "''865811111111111''" clock_1 session_1]
    big
  have b: "add_service (session_2\<lparr>rn := 65536\<rparr>) 16 kwargs_1 clock_1
       = Inl (OverflowError, session_2\<lparr>rn := 65536, service := Some []\<rparr>)"
    by (simp add: pending_def session_2_def)
  from ok a b app init_session_1 show ?thesis by simp
qed

text \<open>
  C8 as stated fails at 65535: the append returns and the record has number 65535, but
  the counter is then 65536, not 0, and the next append raises OverflowError.
\<close>

theorem record_counter_wrap_counterexample:
  "rn (session_2\<lparr>rn := 65535\<rparr>) = 65535
   \<and> \<not> isl (add_service (session_2\<lparr>rn := 65535\<rparr>) 4 Map.empty clock_1)
   \<and> record_number (appended (session_2\<lparr>rn := 65535\<rparr>)
         (projr (add_service (session_2\<lparr>rn := 65535\<rparr>) 4 Map.empty clock_1))) = 65535
   \<and> rn (projr (add_service (session_2\<lparr>rn := 65535\<rparr>) 4 Map.empty clock_1)) = 65536
   \<and> add_service (projr (add_service (session_2\<lparr>rn := 65535\<rparr>) 4 Map.empty clock_1))
         4 Map.empty clock_1
       = Inl (OverflowError, projr (add_service (session_2\<lparr>rn := 65535\<rparr>) 4 Map.empty clock_1))"
proof -
  let ?s = "session_2\<lparr>rn := 65535\<rparr>"
  have ok: "\<not> isl (add_service ?s 4 Map.empty clock_1)" by code_simp
  then obtain s' where app: "add_service ?s 4 Map.empty clock_1 = Inr s'"
    by (cases "add_service ?s 4 Map.empty clock_1") auto
  from add_service_Inr [OF app] have f: "record_number (appended ?s s') = 65535" "rn s' = 65536"
    "service s' \<noteq> None"
    by simp_all
  then have over: "rn s' < 0 \<or> 65535 < rn s'" by simp
  from f(3) have same: "s'\<lparr>service := Some (pending s')\<rparr> = s'"
    by (auto simp: pending_def)
  have "add_service s' 4 Map.empty clock_1 = Inl (OverflowError, s')"
    using add_service_counter_overflow [OF over, of 4 Map.empty clock_1] unfolding same .
  with ok f show ?thesis unfolding app by simp
qed

section \<open>The constructor\<close>

lemma new_message_fits_fields:
  assumes "service s = Some buffer" "length buffer \<le> 65535" "0 \<le> rn s" "rn s \<le> 65535"
  shows "\<not> isl (new_message s) \<and> packet_id (fst (projr (new_message s))) = rn s
         \<and> frame_data_length (fst (projr (new_message s))) = int (length buffer)
         \<and> take 1 (drop 3 (fst (projr (new_message s)))) = [0x0B]
         \<and> drop (length (fst (projr (new_message s))) - 2) (fst (projr (new_message s)))
             = le_bytes 2 (payload_crc16 buffer)"
  unfolding new_message_fits [OF assms]
  using assms(2-4)
  by (simp add: packet_id_def frame_data_length_def le_int_le_bytes del: le_bytes.simps)

lemma add_service_1_type:
  assumes "add_service_1 s rn_b clock = Inr (r, s')" "length rn_b = 2"
  shows "take 1 (drop 15 r) = [0x01]"
  using assms
  by (auto simp: add_service_1_def raise_in_Inr_iff to_bytes_Inr_iff Let_def encode_def)

lemma init_record:
  assumes "init deviceid deviceimei clock = Inr s"
  shows "length (pending s) = 57 + length deviceimei \<and> take 1 (drop 15 (pending s)) = [0x01]
         \<and> service s = Some (pending s)"
proof -
  let ?s = "\<lparr>tid = deviceid, imei = deviceimei, pt = [0x01], hcs = [0x00], sfrcs = PyInt 0,
        service = Some [], fdl = [0x00, 0x30, 0x30], pid = 1, rn = 1\<rparr>"
  from assms obtain r s1 where br: "add_service_1 ?s (le_bytes 2 1) clock = Inr (r, s1)"
    and s: "s = s1\<lparr>service := Some r, rn := 2\<rparr>"
    by (auto simp: init_def add_service_def raise_in_def to_bytes_def Let_def
        dest: add_service_1_Inr split: sum.splits option.splits simp del: le_bytes.simps)
  have len: "length (le_bytes 2 1 :: byte list) = 2" by simp
  from add_service_1_Inr [OF br len] add_service_1_type [OF br len] show ?thesis
    by (simp add: s pending_def)
qed

lemma init_fits:
  assumes "0 \<le> deviceid" "deviceid < 2 ^ 32" "0 \<le> get_date_time (fst clock)"
    "get_date_time (fst clock) < 2 ^ 32" "length deviceimei \<le> 65493"
  shows "\<not> isl (init deviceid deviceimei clock)"
  using assms
  by (simp add: init_def add_service_def add_service_1_def raise_in_def to_bytes_def Let_def
      encode_def del: le_bytes.simps)

text \<open>
  C9, as amended. The constructor itself appends one type-1 record: after a construction
  that returned, and before any \<open>add_service\<close> by the caller, the buffer holds that one
  record (57 bytes and the IMEI, record number 1, subrecord type 1) and the record counter
  is 2; and when the IMEI text is at most 65478 bytes, \<open>new_message\<close> returns with no
  \<open>add_service\<close> before it, and the packet id of its packet is 2.
\<close>

theorem constructor_appends_identity_record:
  assumes "init deviceid deviceimei clock = Inr s" "length deviceimei \<le> 65478"
  shows "service s \<noteq> None \<and> pending s \<noteq> [] \<and> length (pending s) = 57 + length deviceimei
         \<and> take 1 (drop 15 (pending s)) = [0x01] \<and> record_number (pending s) = 1
         \<and> rn s = 2
         \<and> \<not> isl (new_message s) \<and> packet_id (fst (projr (new_message s))) = 2"
proof -
  from init_Inr [OF assms(1)] have a: "record_number (pending s) = 1" "rn s = 2"
    "service s \<noteq> None" "4 \<le> length (pending s)"
    by blast+
  from init_record [OF assms(1)] have b: "length (pending s) = 57 + length deviceimei"
    "take 1 (drop 15 (pending s)) = [0x01]" "service s = Some (pending s)"
    by blast+
  have "length (pending s) \<le> 65535" using b(1) assms(2) by simp
  from new_message_fits_fields [OF b(3) this] a(2)
  have c: "\<not> isl (new_message s)" "packet_id (fst (projr (new_message s))) = 2"
    by simp_all
  from a(4) have "pending s \<noteq> []" by auto
  with a b c show ?thesis by blast
qed

theorem constructor_appends_identity_record_witness:
  "init 111111111 ''865811111111111'' clock_1 = Inr session_1
   \<and> length ''865811111111111'' \<le> 65478
   \<and> pending session_1 = records_1 \<and> rn session_1 = 2
   \<and> new_message session_1 = Inr (packet_1, session_2) \<and> packet_id packet_1 = 2"
proof -
  have l: "length ''865811111111111'' \<le> 65478" by simp
  from constructor_appends_identity_record [OF init_session_1 l]
  have "rn session_1 = 2" "packet_id (fst (projr (new_message session_1))) = 2"
    by blast+
  then have "rn session_1 = 2" "packet_id packet_1 = 2"
    by (simp_all add: new_message_session_1)
  moreover have "pending session_1 = records_1"
    by (simp add: pending_def session_1_def)
  ultimately show ?thesis
    using l init_session_1 new_message_session_1 by blast
qed

text \<open>
  C9 as stated fails for an IMEI text of 65479 bytes: the constructor returns, its record
  makes the buffer 65536 bytes long, and \<open>new_message\<close> raises OverflowError at the
  conversion of that length to two bytes.
\<close>

theorem constructor_long_imei_counterexample:
  "\<not> isl (init 111111111 (replicate 65479 (CHR ''1'')) clock_1)
   \<and> length (pending (projr (init 111111111 (replicate 65479 (CHR ''1'')) clock_1))) = 65536
   \<and> isl (new_message (projr (init 111111111 (replicate 65479 (CHR ''1'')) clock_1)))
   \<and> fst (projl (new_message (projr (init 111111111 (replicate 65479 (CHR ''1'')) clock_1))))
       = OverflowError"
proof -
  let ?i = "init 111111111 (replicate 65479 (CHR ''1'')) clock_1"
  have t: "get_date_time (fst clock_1) = 504910800" by code_simp
  have ok: "\<not> isl ?i"
    by (rule init_fits) (simp_all add: t)
  then obtain s where s: "?i = Inr s" by (cases ?i) auto
  from init_record [OF s] have len: "length (pending s) = 65536"
    and some: "service s = Some (pending s)"
    by simp_all
  then have "65535 < length (pending s)" by simp
  from new_message_too_long [OF some this] ok len show ?thesis
    unfolding s by simp
qed

section \<open>What a failing call leaves behind\<close>

lemma new_message_counter_overflow:
  assumes "service s = Some buffer" "length buffer \<le> 65535" "rn s < 0 \<or> 65535 < rn s"
  shows "new_message s =
     Inl (OverflowError,
          s\<lparr>pid := rn s, sfrcs := PyBytes (le_bytes 2 (payload_crc16 buffer)),
            fdl := le_bytes 2 (int (length buffer))\<rparr>)"
proof -
  have "to_bytes (rn s) 2 = Inl OverflowError"
    using assms(3) by (auto simp: to_bytes_def)
  then have "bytes (s\<lparr>pid := rn s, sfrcs := x, fdl := y\<rparr>) = Inl OverflowError" for x y
    by (simp add: bytes_def ebind_def)
  with assms(1,2) show ?thesis
    by (simp add: new_message_def raise_in_def crc16_to_bytes to_bytes_fits Let_def
        del: le_bytes.simps)
qed

lemma add_service_1_Inl_service:
  "add_service_1 s rn_b clock = Inl (e, s') \<Longrightarrow> service s' = service s"
  by (auto simp: add_service_1_def raise_in_def Let_def split: sum.splits)

lemma add_service_2_Inl_service:
  "add_service_2 s rn_b clock = Inl (e, s') \<Longrightarrow> service s' = service s"
  by (auto simp: add_service_2_def raise_in_def Let_def split: sum.splits)

lemma add_service_4_Inl_service:
  "add_service_4 s rn_b = Inl (e, s') \<Longrightarrow> service s' = service s"
  by (auto simp: add_service_4_def raise_in_def Let_def split: sum.splits)

lemma add_service_16_Inl_service:
  "add_service_16 s rn_b kwargs clock = Inl (e, s') \<Longrightarrow> service s' = service s"
  by (auto simp: add_service_16_def raise_in_def Let_def split: sum.splits)

lemma add_service_Inl_service:
  assumes "add_service s record_types kwargs clock = Inl (e, s')"
  shows "service s' = Some (pending s)"
proof -
  define s0 where "s0 = (if service s = None then s\<lparr>service := Some []\<rparr> else s)"
  have sv0: "service s0 = Some (pending s)"
    by (auto simp: s0_def pending_def)
  let ?branch = "\<lambda>rn_b. if record_types = 1 then add_service_1 s0 rn_b clock
          else if record_types = 2 then add_service_2 s0 rn_b clock
          else if record_types = 16 then add_service_16 s0 rn_b kwargs clock
          else if record_types = 4 then add_service_4 s0 rn_b
          else Inl (UnboundLocalError, s0)"
  have unfolded: "raise_in s0 (to_bytes (rn s0) 2) (\<lambda>rn_b.
      case ?branch rn_b of Inl raised \<Rightarrow> Inl raised
      | Inr (r, s1) \<Rightarrow>
          (case service s1 of None \<Rightarrow> Inl (TypeError, s1)
           | Some buffer \<Rightarrow> Inr (s1\<lparr>service := Some (buffer @ r), rn := rn s1 + 1\<rparr>)))
      = Inl (e, s')"
    using assms(1) unfolding add_service_def Let_def s0_def [symmetric] .
  show ?thesis
  proof (cases "to_bytes (rn s0) 2")
    case (Inl err)
    with unfolded have "s' = s0" by (simp add: raise_in_def)
    with sv0 show ?thesis by simp
  next
    case (Inr rn_b)
    then have len: "length rn_b = 2" by (auto simp: to_bytes_Inr_iff)
    from Inr unfolded have rest: "(case ?branch rn_b of Inl raised \<Rightarrow> Inl raised
      | Inr (r, s1) \<Rightarrow>
          (case service s1 of None \<Rightarrow> Inl (TypeError, s1)
           | Some buffer \<Rightarrow> Inr (s1\<lparr>service := Some (buffer @ r), rn := rn s1 + 1\<rparr>)))
      = Inl (e, s')"
      by (simp add: raise_in_def)
    show ?thesis
    proof (cases "?branch rn_b")
      case branch_raised: (Inl raised)
      with rest have "?branch rn_b = Inl (e, s')" by simp
      then have "service s' = service s0"
        using add_service_1_Inl_service [of s0 rn_b clock e s']
          add_service_2_Inl_service [of s0 rn_b clock e s']
          add_service_16_Inl_service [of s0 rn_b kwargs clock e s']
          add_service_4_Inl_service [of s0 rn_b e s']
        by (auto split: if_splits)
      with sv0 show ?thesis by simp
    next
      case branch_done: (Inr result)
      obtain r s1 where result: "result = (r, s1)" by (cases result)
      from add_service_branch [OF branch_done [unfolded result] len] sv0
      have "service s1 = Some (pending s)" by (auto split: if_splits)
      with rest branch_done result show ?thesis by simp
    qed
  qed
qed

section \<open>The empty buffer\<close>

lemma new_message_empty_bytes:
  assumes "service s = Some []" "0 \<le> rn s" "rn s \<le> 65535"
  shows "\<not> isl (new_message s)
         \<and> fst (projr (new_message s))
             = [0x01, 0x00, 0x00, 0x0B, 0x00, 0x00, 0x00] @ le_bytes 2 (rn s) @ pt s
               @ [word_of_int (header_crc8
                    ([0x01, 0x00, 0x00, 0x0B, 0x00, 0x00, 0x00] @ le_bytes 2 (rn s) @ pt s))]
               @ [0xFF, 0xFF]
         \<and> frame_data_length (fst (projr (new_message s))) = 0"
proof -
  have len: "length ([] :: byte list) \<le> 65535" by simp
  have crc: "payload_crc16 [] = 0xFFFF" by (simp add: payload_crc16_def)
  have ff: "le_bytes 2 (0xFFFF :: int) = [0xFF, 0xFF]" and zero: "le_bytes 2 (0 :: int) = [0x00, 0x00]"
    by (simp_all add: le_bytes_2)
  have one: "le_bytes 1 n = [word_of_int n]" for n by simp
  show ?thesis
    unfolding new_message_fits [OF assms(1) len assms(2,3)] crc ff one
    by (simp add: frame_data_length_def zero del: le_bytes.simps)
qed

text \<open>
  C5, as amended. \<open>new_message\<close> called when the buffer is unset (\<open>_service\<close> is \<open>None\<close>,
  the test the code makes) raises and leaves the object as it was; the error is the
  TypeError of the source, which is what the specification calls EmptyBuffer. After every
  successful \<open>new_message\<close> the buffer is \<open>None\<close> again and the record counter is what it
  was, so a second \<open>new_message\<close> with no \<open>add_service\<close> call between raises the same
  error. But an \<open>add_service\<close> call that raises on an unset buffer leaves the buffer as the
  empty \<open>bytes\<close> object, and on that empty buffer \<open>new_message\<close> does not raise (while the
  counter fits two bytes): it returns a packet of 13 bytes with frame data length 0 and
  no record.
\<close>

theorem finalize_empty_buffer:
  "(service s = None \<longrightarrow> new_message s = Inl (TypeError, s))
   \<and> (new_message s = Inr (packet, s') \<longrightarrow>
        service s' = None \<and> rn s' = rn s \<and> new_message s' = Inl (TypeError, s'))
   \<and> (service s = None \<and> add_service s record_types kwargs clock = Inl (e, s'') \<longrightarrow>
        service s'' = Some [])
   \<and> (service s = Some [] \<and> 0 \<le> rn s \<and> rn s \<le> 65535 \<longrightarrow>
        \<not> isl (new_message s)
        \<and> fst (projr (new_message s))
            = [0x01, 0x00, 0x00, 0x0B, 0x00, 0x00, 0x00] @ le_bytes 2 (rn s) @ pt s
              @ [word_of_int (header_crc8
                   ([0x01, 0x00, 0x00, 0x0B, 0x00, 0x00, 0x00] @ le_bytes 2 (rn s) @ pt s))]
              @ [0xFF, 0xFF]
        \<and> frame_data_length (fst (projr (new_message s))) = 0)"
proof -
  have a: "new_message s' = Inl (TypeError, s')" if "new_message s = Inr (packet, s')"
    using new_message_Inr [OF that] by (simp add: new_message_None)
  have b: "service s'' = Some []"
    if "service s = None" "add_service s record_types kwargs clock = Inl (e, s'')"
    using add_service_Inl_service [OF that(2)] that(1) by (simp add: pending_def)
  show ?thesis
    using a b new_message_Inr [of s packet s'] new_message_None [of s]
      new_message_empty_bytes [of s]
    by blast
qed


theorem finalize_empty_buffer_witness:
  "new_message session_1 = Inr (packet_1, session_2) \<and> service session_2 = None
   \<and> rn session_2 = rn session_1 \<and> new_message session_2 = Inl (TypeError, session_2)
   \<and> add_service session_2 99 Map.empty clock_1
       = Inl (UnboundLocalError, session_2\<lparr>service := Some []\<rparr>)
   \<and> \<not> isl (new_message (session_2\<lparr>service := Some []\<rparr>))
   \<and> frame_data_length (fst (projr (new_message (session_2\<lparr>service := Some []\<rparr>)))) = 0"
proof -
  let ?e = "session_2\<lparr>service := Some []\<rparr>"
  have none: "service session_2 = None" by (simp add: session_2_def)
  have fail: "add_service session_2 99 Map.empty clock_1 = Inl (UnboundLocalError, ?e)"
    by (subst add_service_no_branch) (simp_all add: session_2_def pending_def)
  have e: "service ?e = Some [] \<and> 0 \<le> rn ?e \<and> rn ?e \<le> 65535"
    by (simp add: session_2_def)
  from finalize_empty_buffer
    [of session_1 packet_1 session_2 99 Map.empty clock_1 UnboundLocalError ?e]
    new_message_session_1
  have a: "service session_2 = None" "rn session_2 = rn session_1"
    "new_message session_2 = Inl (TypeError, session_2)"
    by blast+
  from finalize_empty_buffer
    [of session_2 packet_1 session_2 99 Map.empty clock_1 UnboundLocalError ?e] none fail
  have b: "service ?e = Some []" by blast
  from finalize_empty_buffer
    [of ?e packet_1 session_2 99 Map.empty clock_1 UnboundLocalError ?e] e
  have c: "\<not> isl (new_message ?e)" "frame_data_length (fst (projr (new_message ?e))) = 0"
    by blast+
  from a c fail new_message_session_1 show ?thesis by blast
qed

text \<open>
  C5 as stated fails on the script's session after its first packet, once an
  \<open>add_service(99)\<close> has raised: the buffer holds no bytes, and \<open>new_message\<close> returns a
  packet with no record instead of raising.
\<close>

theorem finalize_empty_bytes_counterexample:
  "init 111111111 ''865811111111111'' clock_1 = Inr session_1
   \<and> new_message session_1 = Inr (packet_1, session_2)
   \<and> add_service session_2 99 Map.empty clock_1
       = Inl (UnboundLocalError, session_2\<lparr>service := Some []\<rparr>)
   \<and> pending (session_2\<lparr>service := Some []\<rparr>) = []
   \<and> new_message (session_2\<lparr>service := Some []\<rparr>)
       = Inr ([1, 0, 0, 11, 0, 0, 0, 2, 0, 1, 169, 255, 255],
              session_2\<lparr>hcs := [169], sfrcs := PyBytes [255, 255], fdl := [0, 0]\<rparr>)"
proof -
  have "add_service session_2 99 Map.empty clock_1
         = Inl (UnboundLocalError, session_2\<lparr>service := Some []\<rparr>)"
    by (subst add_service_no_branch) (simp_all add: session_2_def pending_def)
  moreover have "pending (session_2\<lparr>service := Some []\<rparr>) = []"
    by (simp add: pending_def)
  moreover have "new_message (session_2\<lparr>service := Some []\<rparr>)
       = Inr ([1, 0, 0, 11, 0, 0, 0, 2, 0, 1, 169, 255, 255],
              session_2\<lparr>hcs := [169], sfrcs := PyBytes [255, 255], fdl := [0, 0]\<rparr>)"
    by code_simp
  ultimately show ?thesis using init_session_1 new_message_session_1 by blast
qed

section \<open>Queueing many records\<close>

lemma add_service_Inr_branch:
  assumes "add_service s record_types kwargs clock = Inr s'"
  shows "\<exists>s0 s1. imei s0 = imei s \<and>
          (if record_types = 1 then add_service_1 s0 (le_bytes 2 (rn s)) clock
           else if record_types = 2 then add_service_2 s0 (le_bytes 2 (rn s)) clock
           else if record_types = 16 then add_service_16 s0 (le_bytes 2 (rn s)) kwargs clock
           else if record_types = 4 then add_service_4 s0 (le_bytes 2 (rn s))
           else Inl (UnboundLocalError, s0)) = Inr (appended s s', s1)"
proof -
  define s0 where "s0 = (if service s = None then s\<lparr>service := Some []\<rparr> else s)"
  have s0: "service s0 = Some (pending s)" "rn s0 = rn s" "imei s0 = imei s"
    by (auto simp: s0_def pending_def)
  let ?branch = "\<lambda>rn_b. if record_types = 1 then add_service_1 s0 rn_b clock
          else if record_types = 2 then add_service_2 s0 rn_b clock
          else if record_types = 16 then add_service_16 s0 rn_b kwargs clock
          else if record_types = 4 then add_service_4 s0 rn_b
          else Inl (UnboundLocalError, s0)"
  from assms obtain rn_b where
    rn_b: "to_bytes (rn s) 2 = Inr rn_b" and
    rest: "(case ?branch rn_b of Inl raised \<Rightarrow> Inl raised
            | Inr (r, s1) \<Rightarrow>
                (case service s1 of None \<Rightarrow> Inl (TypeError, s1)
                 | Some buffer \<Rightarrow> Inr (s1\<lparr>service := Some (buffer @ r), rn := rn s1 + 1\<rparr>)))
           = Inr s'"
    unfolding add_service_def Let_def s0_def [symmetric] s0 raise_in_Inr_iff by blast
  from rest obtain r s1 where
    br: "?branch rn_b = Inr (r, s1)" and
    fin: "(case service s1 of None \<Rightarrow> Inl (TypeError, s1)
           | Some buffer \<Rightarrow> Inr (s1\<lparr>service := Some (buffer @ r), rn := rn s1 + 1\<rparr>)) = Inr s'"
    by (cases "?branch rn_b") auto
  from rn_b have rn_b_eq: "rn_b = le_bytes 2 (rn s)"
    by (simp add: to_bytes_Inr_iff)
  then have len: "length rn_b = 2" by simp
  from add_service_branch [OF br len]
  have s1: "s1 = (if record_types = 2 then s0 else s0\<lparr>pt := [0x01]\<rparr>)"
    by simp
  with s0 have "service s1 = Some (pending s)" by (simp split: if_splits)
  with fin have "pending s' = pending s @ r"
    by (auto simp: pending_def)
  then have "appended s s' = r" by (simp add: appended_def)
  with br s0(3) show ?thesis unfolding rn_b_eq by blast
qed

lemma add_service_Inr_length:
  assumes "add_service s record_types kwargs clock = Inr s'"
  shows "length (appended s s') =
           (if record_types = 1 then 57 + length (imei s) else if record_types = 2 then 43
            else if record_types = 16 then 39 else 17 + length (imei s))"
proof -
  from add_service_Inr_branch [OF assms] obtain s0 s1 where
    im: "imei s0 = imei s" and
    br: "(if record_types = 1 then add_service_1 s0 (le_bytes 2 (rn s)) clock
           else if record_types = 2 then add_service_2 s0 (le_bytes 2 (rn s)) clock
           else if record_types = 16 then add_service_16 s0 (le_bytes 2 (rn s)) kwargs clock
           else if record_types = 4 then add_service_4 s0 (le_bytes 2 (rn s))
           else Inl (UnboundLocalError, s0)) = Inr (appended s s', s1)"
    by blast
  have len: "length (le_bytes 2 (rn s)) = 2" by simp
  consider "record_types = 1" | "record_types = 2" | "record_types = 16" | "record_types = 4"
    | "record_types \<notin> {1, 2, 4, 16}"
    by auto
  then show ?thesis
  proof cases
    case 1
    with br have "add_service_1 s0 (le_bytes 2 (rn s)) clock = Inr (appended s s', s1)" by simp
    from add_service_1_Inr [OF this len] 1 im show ?thesis by simp
  next
    case 2
    with br have "add_service_2 s0 (le_bytes 2 (rn s)) clock = Inr (appended s s', s1)" by simp
    from add_service_2_Inr [OF this len] 2 show ?thesis by simp
  next
    case 3
    with br have "add_service_16 s0 (le_bytes 2 (rn s)) kwargs clock = Inr (appended s s', s1)"
      by simp
    from add_service_16_Inr [OF this len] 3 show ?thesis by simp
  next
    case 4
    with br have "add_service_4 s0 (le_bytes 2 (rn s)) = Inr (appended s s', s1)" by simp
    from add_service_4_Inr [OF this len] 4 im show ?thesis by simp
  next
    case 5
    with br show ?thesis by simp
  qed
qed


lemma add_service_2_fits:
  assumes "0 \<le> tid s" "tid s < 2 ^ 32" "0 \<le> get_date_time (fst clock)"
    "get_date_time (fst clock) < 2 ^ 32" "0 \<le> rn s" "rn s \<le> 65535"
  shows "\<not> isl (add_service s 2 kwargs clock)"
  using assms
  by (cases "service s")
    (simp_all add: add_service_def add_service_2_def raise_in_def to_bytes_def Let_def
      del: le_bytes.simps)

lemma repeated_add_service_2:
  assumes "0 \<le> tid s" "tid s < 2 ^ 32" "0 \<le> get_date_time (fst clock)"
    "get_date_time (fst clock) < 2 ^ 32" "0 \<le> rn s" "rn s + int n \<le> 65536"
  shows "\<exists>ns s'. assigned_numbers s (replicate n (Append 2 kwargs clock)) = Inr (ns, s')
          \<and> length (pending s') = length (pending s) + 43 * n \<and> rn s' = rn s + int n
          \<and> (service s \<noteq> None \<longrightarrow> service s' \<noteq> None)"
  using assms
proof (induction n arbitrary: s)
  case 0
  then show ?case by simp
next
  case (Suc n)
  have "rn s \<le> 65535" using Suc.prems(6) by simp
  with Suc.prems have "\<not> isl (add_service s 2 kwargs clock)"
    by (intro add_service_2_fits)
  then obtain s1 where s1: "add_service s 2 kwargs clock = Inr s1"
    by (cases "add_service s 2 kwargs clock") auto
  from add_service_Inr [OF s1] have f: "rn s1 = rn s + 1" "tid s1 = tid s"
    "pending s1 = pending s @ appended s s1" "service s1 \<noteq> None"
    by blast+
  from add_service_Inr_length [OF s1] have l: "length (appended s s1) = 43" by simp
  have "0 \<le> tid s1" "tid s1 < 2 ^ 32" "0 \<le> rn s1" "rn s1 + int n \<le> 65536"
    using Suc.prems f by simp_all
  from Suc.IH [OF this(1,2) Suc.prems(3,4) this(3,4)] obtain ns s' where
    run: "assigned_numbers s1 (replicate n (Append 2 kwargs clock)) = Inr (ns, s')" and
    g: "length (pending s') = length (pending s1) + 43 * n" "rn s' = rn s1 + int n"
      "service s1 \<noteq> None \<longrightarrow> service s' \<noteq> None"
    by blast
  have "assigned_numbers s (replicate (Suc n) (Append 2 kwargs clock))
          = Inr (record_number (appended s s1) # ns, s')"
    by (simp add: s1 run)
  moreover have "length (pending s') = length (pending s) + 43 * Suc n"
    unfolding g(1) f(3) using l by simp
  moreover have "rn s' = rn s + int (Suc n)"
    unfolding g(2) f(1) by simp
  moreover have "service s' \<noteq> None" using g(3) f(4) by blast
  ultimately show ?case by blast
qed

section \<open>The frame that \<open>new_message\<close> emits\<close>

lemma transport_header_length: "length (transport_header l p) = 10"
  by (simp add: transport_header_def)

lemma new_message_frame_fits:
  assumes "service s = Some records" "length records \<le> 65535" "0 \<le> rn s" "rn s \<le> 65535"
    and "pt s = [0x01]"
  shows "\<exists>s'. new_message s =
            Inr (transport_header (int (length records)) (rn s)
                   @ [word_of_int (header_crc8 (transport_header (int (length records)) (rn s)))]
                   @ records @ le_bytes 2 (payload_crc16 records), s')
          \<and> length (transport_header (int (length records)) (rn s)) = 10
          \<and> header_crc (transport_header (int (length records)) (rn s))
              = Inr (header_crc8 (transport_header (int (length records)) (rn s)))
          \<and> data_crc records = Inr (payload_crc16 records)
          \<and> le_int (le_bytes 2 (payload_crc16 records)) = payload_crc16 records
          \<and> frame_data_length (fst (projr (new_message s))) = int (length records)
          \<and> packet_id (fst (projr (new_message s))) = rn s"
proof -
  let ?h = "transport_header (int (length records)) (rn s)"
  have h: "[0x01, 0x00, 0x00, 0x0B, 0x00] @ le_bytes 2 (int (length records)) @ le_bytes 2 (rn s) @ pt s = ?h"
    by (simp add: transport_header_def assms(5))
  have nm: "new_message s =
      Inr (?h @ [word_of_int (header_crc8 ?h)] @ records @ le_bytes 2 (payload_crc16 records),
           s\<lparr>pid := rn s, sfrcs := PyBytes (le_bytes 2 (payload_crc16 records)),
             fdl := le_bytes 2 (int (length records)),
             hcs := [word_of_int (header_crc8 ?h)], service := None\<rparr>)"
    unfolding new_message_fits [OF assms(1-4)] h [symmetric] le_bytes_1 by simp
  have fdl: "frame_data_length (?h @ rest) = int (length records)" for rest
    using assms(2) by (simp add: frame_data_length_def transport_header_def le_int_le_bytes
        del: le_bytes.simps)
  have pid: "packet_id (?h @ rest) = rn s" for rest
    using assms(3,4) by (simp add: packet_id_def transport_header_def le_int_le_bytes
        del: le_bytes.simps)
  have crc: "le_int (le_bytes 2 (payload_crc16 records)) = payload_crc16 records"
    using payload_crc16_range [of records] by (simp add: le_int_le_bytes del: le_bytes.simps)
  show ?thesis
    unfolding nm using fdl pid crc
    by (simp add: transport_header_length header_crc_eq data_crc_eq del: le_bytes.simps)
qed


text \<open>
  C1, as amended. For every session whose buffer is not \<open>None\<close>: when the buffer holds
  at most 65535 bytes, the record counter is from 0 to 65535 and the packet type byte is
  0x01 (as in every object the constructor and the two methods build, by
  \<open>packet_type_invariant\<close> at the end), \<open>new_message\<close> returns the 10 header bytes (0x01,
  0x00, 0x00, 0x0B, 0x00, frame data length, packet id, 0x01), one byte that is
  \<open>header_crc\<close> of those 10 bytes, the buffer, and the two little-endian bytes of
  \<open>data_crc\<close> of the buffer; the frame data length field is the length of the buffer and
  the packet id field is the record counter. When the buffer is longer than 65535 bytes
  or the counter is outside 0 to 65535, \<open>new_message\<close> raises OverflowError and returns
  no packet.
\<close>

theorem new_message_frame:
  assumes "service s = Some records"
  shows "(length records \<le> 65535 \<and> 0 \<le> rn s \<and> rn s \<le> 65535 \<and> pt s = [0x01] \<longrightarrow>
            (\<exists>s'. new_message s =
               Inr (transport_header (int (length records)) (rn s)
                      @ [word_of_int (header_crc8 (transport_header (int (length records)) (rn s)))]
                      @ records @ le_bytes 2 (payload_crc16 records), s'))
            \<and> length (transport_header (int (length records)) (rn s)) = 10
            \<and> header_crc (transport_header (int (length records)) (rn s))
                = Inr (header_crc8 (transport_header (int (length records)) (rn s)))
            \<and> data_crc records = Inr (payload_crc16 records)
            \<and> le_int (le_bytes 2 (payload_crc16 records)) = payload_crc16 records
            \<and> frame_data_length (fst (projr (new_message s))) = int (length records)
            \<and> packet_id (fst (projr (new_message s))) = rn s)
         \<and> (65535 < length records \<or> rn s < 0 \<or> 65535 < rn s \<longrightarrow>
              isl (new_message s) \<and> fst (projl (new_message s)) = OverflowError)"
proof -
  have "isl (new_message s) \<and> fst (projl (new_message s)) = OverflowError"
    if "65535 < length records \<or> rn s < 0 \<or> 65535 < rn s"
  proof (cases "65535 < length records")
    case True
    from new_message_too_long [OF assms True] show ?thesis by simp
  next
    case False
    with that have "length records \<le> 65535" "rn s < 0 \<or> 65535 < rn s" by auto
    from new_message_counter_overflow [OF assms this] show ?thesis by simp
  qed
  moreover have "(\<exists>s'. new_message s =
               Inr (transport_header (int (length records)) (rn s)
                      @ [word_of_int (header_crc8 (transport_header (int (length records)) (rn s)))]
                      @ records @ le_bytes 2 (payload_crc16 records), s'))
            \<and> length (transport_header (int (length records)) (rn s)) = 10
            \<and> header_crc (transport_header (int (length records)) (rn s))
                = Inr (header_crc8 (transport_header (int (length records)) (rn s)))
            \<and> data_crc records = Inr (payload_crc16 records)
            \<and> le_int (le_bytes 2 (payload_crc16 records)) = payload_crc16 records
            \<and> frame_data_length (fst (projr (new_message s))) = int (length records)
            \<and> packet_id (fst (projr (new_message s))) = rn s"
    if "length records \<le> 65535 \<and> 0 \<le> rn s \<and> rn s \<le> 65535 \<and> pt s = [0x01]"
    using new_message_frame_fits [OF assms, of] that by blast
  ultimately show ?thesis by blast
qed

lemma session_1_many_records:
  "\<exists>ns s'. assigned_numbers session_1 (replicate 1523 (Append 2 Map.empty clock_1)) = Inr (ns, s')
     \<and> length (pending s') = 65561 \<and> rn s' = 1525 \<and> service s' \<noteq> None"
proof -
  have t: "get_date_time (fst clock_1) = 504910800" by code_simp
  have "0 \<le> tid session_1" "tid session_1 < 2 ^ 32" "0 \<le> get_date_time (fst clock_1)"
    "get_date_time (fst clock_1) < 2 ^ 32" "0 \<le> rn session_1"
    "rn session_1 + int 1523 \<le> 65536"
    by (simp_all add: session_1_def t)
  from repeated_add_service_2 [OF this, of Map.empty]
  obtain ns s' where
    "assigned_numbers session_1 (replicate 1523 (Append 2 Map.empty clock_1)) = Inr (ns, s')"
    "length (pending s') = length (pending session_1) + 43 * 1523" "rn s' = rn session_1 + int 1523"
    "service session_1 \<noteq> None \<longrightarrow> service s' \<noteq> None"
    by blast
  moreover have "length (pending session_1) = 72" "rn session_1 = 2" "service session_1 \<noteq> None"
    by (simp_all add: pending_def session_1_def records_1_def)
  ultimately show ?thesis by simp
qed

theorem new_message_frame_witness:
  "service session_1 = Some records_1 \<and> length records_1 \<le> 65535 \<and> 0 \<le> rn session_1
   \<and> rn session_1 \<le> 65535 \<and> pt session_1 = [0x01]
   \<and> fst (projr (new_message session_1))
       = transport_header 72 2 @ [word_of_int (header_crc8 (transport_header 72 2))]
           @ records_1 @ le_bytes 2 (payload_crc16 records_1)
   \<and> frame_data_length (fst (projr (new_message session_1))) = 72
   \<and> fst (projr (new_message session_1)) = packet_1
   \<and> 65535 < length (pending (snd (projr (assigned_numbers session_1
                  (replicate 1523 (Append 2 Map.empty clock_1))))))
   \<and> isl (new_message (snd (projr (assigned_numbers session_1
                  (replicate 1523 (Append 2 Map.empty clock_1))))))"
proof -
  have a: "service session_1 = Some records_1" by (simp add: session_1_def)
  have b: "length records_1 \<le> 65535" and len: "int (length records_1) = 72"
    by (simp_all add: records_1_def)
  have c: "0 \<le> rn session_1" "rn session_1 \<le> 65535" and rn: "rn session_1 = 2"
    by (simp_all add: session_1_def)
  have d: "pt session_1 = [0x01]" by (simp add: session_1_def)
  from new_message_frame [OF a] b c d
  have first: "fst (projr (new_message session_1))
       = transport_header 72 2 @ [word_of_int (header_crc8 (transport_header 72 2))]
           @ records_1 @ le_bytes 2 (payload_crc16 records_1)"
    "frame_data_length (fst (projr (new_message session_1))) = 72"
    unfolding len rn by auto
  from session_1_many_records obtain ns s' where
    run: "assigned_numbers session_1 (replicate 1523 (Append 2 Map.empty clock_1)) = Inr (ns, s')"
    and big: "length (pending s') = 65561" and some: "service s' \<noteq> None"
    by blast
  from some have sv: "service s' = Some (pending s')" by (auto simp: pending_def)
  from new_message_frame [OF sv] big have "isl (new_message s')" by simp
  with big have second: "65535 < length (pending (snd (projr (assigned_numbers session_1
                  (replicate 1523 (Append 2 Map.empty clock_1))))))"
    "isl (new_message (snd (projr (assigned_numbers session_1
                  (replicate 1523 (Append 2 Map.empty clock_1))))))"
    unfolding run by simp_all
  from a b c d first second show ?thesis
    by (simp add: new_message_session_1)
qed

text \<open>
  C1 as stated fails once enough records are queued: after the constructor and 1523
  calls of \<open>add_service(2)\<close>, which all return, the buffer holds 72 + 1523 * 43 = 65561
  bytes, and \<open>new_message\<close> raises OverflowError at the conversion of that length to two
  bytes.
\<close>

theorem new_message_frame_counterexample:
  "init 111111111 ''865811111111111'' clock_1 = Inr session_1
   \<and> \<not> isl (assigned_numbers session_1 (replicate 1523 (Append 2 Map.empty clock_1)))
   \<and> service (snd (projr (assigned_numbers session_1
         (replicate 1523 (Append 2 Map.empty clock_1))))) \<noteq> None
   \<and> length (pending (snd (projr (assigned_numbers session_1
         (replicate 1523 (Append 2 Map.empty clock_1)))))) = 72 + 1523 * 43
   \<and> isl (new_message (snd (projr (assigned_numbers session_1
         (replicate 1523 (Append 2 Map.empty clock_1))))))
   \<and> fst (projl (new_message (snd (projr (assigned_numbers session_1
         (replicate 1523 (Append 2 Map.empty clock_1))))))) = OverflowError"
proof -
  from session_1_many_records obtain ns s' where
    run: "assigned_numbers session_1 (replicate 1523 (Append 2 Map.empty clock_1)) = Inr (ns, s')"
    and big: "length (pending s') = 65561" and some: "service s' \<noteq> None"
    by blast
  from some have sv: "service s' = Some (pending s')" by (auto simp: pending_def)
  have "65535 < length (pending s')" using big by simp
  from new_message_too_long [OF sv this] big some init_session_1 show ?thesis
    unfolding run by simp
qed

section \<open>The end-to-end example\<close>

lemma clock_1_reading:
  "get_date_time (fst clock_1) = 504910800" "get_date_time (snd clock_1) = 504910800"
  by code_simp+

lemma kwargs_get_kwargs_1:
  "kwargs_get kwargs_1 ''long'' = Inr (the (kwargs_1 ''long''))"
  "kwargs_get kwargs_1 ''lat'' = Inr (the (kwargs_1 ''lat''))"
  "kwargs_get kwargs_1 ''speed'' = Inr (the (kwargs_1 ''speed''))"
  by (simp_all add: kwargs_get_def kwargs_1_def)

lemma coordinate_long_1: "coordinate (the (kwargs_1 ''long'')) 180 = Inr 955754419"
  by code_simp

lemma coordinate_lat_1: "coordinate (the (kwargs_1 ''lat'')) 90 = Inr 2263153129"
  by code_simp

lemma signs_1: "\<not> py_lt_0 (the (kwargs_1 ''long''))" "\<not> py_lt_0 (the (kwargs_1 ''lat''))"
  by code_simp+

lemma speed_1: "ebind (py_mul (the (kwargs_1 ''speed'')) (IntNum 10)) py_int = Inr 900"
  by code_simp

lemma add_service_16_kwargs_1_fits:
  assumes "0 \<le> tid s" "tid s < 2 ^ 32" "0 \<le> rn s" "rn s \<le> 65535"
  shows "\<not> isl (add_service s 16 kwargs_1 clock_1)"
proof -
  have long_b: "ebind (coordinate (the (kwargs_1 ''long'')) 180) (\<lambda>n. to_bytes n 4)
                  = Inr (le_bytes 4 955754419)"
    and lat_b: "ebind (coordinate (the (kwargs_1 ''lat'')) 90) (\<lambda>n. to_bytes n 4)
                  = Inr (le_bytes 4 2263153129)"
    and spd_b: "ebind (ebind (py_mul (the (kwargs_1 ''speed'')) (IntNum 10)) py_int)
                  (\<lambda>n. to_bytes n 2) = Inr (le_bytes 2 900)"
    unfolding coordinate_long_1 coordinate_lat_1 speed_1
    by (simp_all add: ebind_def to_bytes_def del: le_bytes.simps)
  show ?thesis
    using assms
    by (cases "service s")
      (simp_all add: add_service_def add_service_16_def raise_in_def to_bytes_fits Let_def
        kwargs_get_kwargs_1 long_b lat_b spd_b signs_1 clock_1_reading
        del: le_bytes.simps)
qed

lemma add_service_16_type:
  assumes "add_service_16 s rn_b kwargs clock = Inr (r, s')" "length rn_b = 2"
  shows "take 1 (drop 15 r) = [0x10]"
  using assms
  by (auto simp: add_service_16_def raise_in_Inr_iff ebind_Inr_iff to_bytes_Inr_iff Let_def)

text \<open>
  C7, as amended. For a session constructed with terminal id 111111111, whose constructor
  has appended the type-1 record, followed by an \<open>add_service(16)\<close> with longitude
  40.055205, latitude 47.423826 and speed 90 that returns, and with an IMEI text of at
  most 65439 bytes: \<open>new_message\<close> returns a packet whose byte at index 3 is 0x0B, whose
  last two bytes are the CRC-16 of the two records in the buffer (the type-1 record with
  number 1 and the position record with number 2), and whose packet id is 3.
\<close>

theorem end_to_end_packet:
  assumes "init 111111111 deviceimei clock0 = Inr s1"
    and "add_service s1 16 kwargs_1 clock1 = Inr s2"
    and "length deviceimei \<le> 65439"
  shows "\<not> isl (new_message s2)
         \<and> take 1 (drop 3 (fst (projr (new_message s2)))) = [0x0B]
         \<and> packet_id (fst (projr (new_message s2))) = 3
         \<and> pending s2 = pending s1 @ appended s1 s2
         \<and> drop (length (fst (projr (new_message s2))) - 2) (fst (projr (new_message s2)))
             = le_bytes 2 (payload_crc16 (pending s1 @ appended s1 s2))
         \<and> data_crc (pending s1 @ appended s1 s2)
             = Inr (payload_crc16 (pending s1 @ appended s1 s2))
         \<and> record_number (pending s1) = 1 \<and> take 1 (drop 15 (pending s1)) = [0x01]
         \<and> record_number (appended s1 s2) = 2 \<and> take 1 (drop 15 (appended s1 s2)) = [0x10]"
proof -
  from init_Inr [OF assms(1)] have i: "record_number (pending s1) = 1" "rn s1 = 2"
    by blast+
  from init_record [OF assms(1)] have l1: "length (pending s1) = 57 + length deviceimei"
    and ty1: "take 1 (drop 15 (pending s1)) = [0x01]"
    by blast+
  from add_service_Inr [OF assms(2)] have b: "record_number (appended s1 s2) = rn s1"
    "rn s2 = rn s1 + 1" "pending s2 = pending s1 @ appended s1 s2" "service s2 \<noteq> None"
    by blast+
  from add_service_Inr_length [OF assms(2)]
  have l2: "length (appended s1 s2) = 39" by simp
  from add_service_Inr_branch [OF assms(2)] obtain s0 s1' where
    br: "add_service_16 s0 (le_bytes 2 (rn s1)) kwargs_1 clock1 = Inr (appended s1 s2, s1')"
    by auto
  have ty2: "take 1 (drop 15 (appended s1 s2)) = [0x10]"
    by (rule add_service_16_type [OF br]) simp
  have rn2: "rn s2 = 3" unfolding b(2) i(2) by simp
  have some: "service s2 = Some (pending s2)"
    using b(4) by (auto simp: pending_def)
  have "length (pending s2) = 96 + length deviceimei"
    unfolding b(3) using l1 l2 by simp
  with assms(3) have short: "length (pending s2) \<le> 65535" by simp
  have lo: "0 \<le> rn s2" and hi: "rn s2 \<le> 65535" unfolding rn2 by simp_all
  note f = new_message_fits_fields [OF some short lo hi, unfolded rn2 b(3)]
  have n: "record_number (appended s1 s2) = 2"
    unfolding b(1) i(2) by simp
  from f i(1) n b(3) ty1 ty2 show ?thesis by (simp add: data_crc_eq del: le_bytes.simps)
qed

theorem end_to_end_packet_witness:
  "init 111111111 ''865811111111111'' clock_1 = Inr session_1
   \<and> add_service session_1 16 kwargs_1 clock_1 = Inr session_1_position
   \<and> length ''865811111111111'' \<le> 65439
   \<and> \<not> isl (new_message session_1_position)
   \<and> take 1 (drop 3 (fst (projr (new_message session_1_position)))) = [0x0B]
   \<and> packet_id (fst (projr (new_message session_1_position))) = 3
   \<and> frame_data_length (fst (projr (new_message session_1_position))) = 72 + 39"
proof -
  have l: "length ''865811111111111'' \<le> 65439" by simp
  from end_to_end_packet
    [OF init_session_1 add_service_session_1_position l]
  have "\<not> isl (new_message session_1_position)"
    "take 1 (drop 3 (fst (projr (new_message session_1_position)))) = [0x0B]"
    "packet_id (fst (projr (new_message session_1_position))) = 3"
    by blast+
  moreover have "frame_data_length (fst (projr (new_message session_1_position))) = 72 + 39"
    by code_simp
  ultimately show ?thesis
    using l init_session_1 add_service_session_1_position by blast
qed

text \<open>
  C7 as stated fails for an IMEI text of 65440 bytes: the constructor and
  \<open>add_service(16)\<close> return, the two records make the buffer 65536 bytes long, and
  \<open>new_message\<close> raises OverflowError instead of returning a packet.
\<close>

theorem end_to_end_long_imei_counterexample:
  "\<not> isl (init 111111111 (replicate 65440 (CHR ''1'')) clock_1)
   \<and> \<not> isl (add_service (projr (init 111111111 (replicate 65440 (CHR ''1'')) clock_1))
              16 kwargs_1 clock_1)
   \<and> length (pending (projr (add_service
         (projr (init 111111111 (replicate 65440 (CHR ''1'')) clock_1)) 16 kwargs_1 clock_1)))
       = 65536
   \<and> isl (new_message (projr (add_service
         (projr (init 111111111 (replicate 65440 (CHR ''1'')) clock_1)) 16 kwargs_1 clock_1)))
   \<and> fst (projl (new_message (projr (add_service
         (projr (init 111111111 (replicate 65440 (CHR ''1'')) clock_1)) 16 kwargs_1 clock_1))))
       = OverflowError"
proof -
  let ?i = "init 111111111 (replicate 65440 (CHR ''1'')) clock_1"
  have ok1: "\<not> isl ?i"
    by (rule init_fits) (simp_all add: clock_1_reading)
  then obtain s1 where s1: "?i = Inr s1" by (cases ?i) auto
  from init_Inr [OF s1] have "tid s1 = 111111111" "rn s1 = 2" by blast+
  then have "0 \<le> tid s1" "tid s1 < 2 ^ 32" "0 \<le> rn s1" "rn s1 \<le> 65535" by simp_all
  then have ok2: "\<not> isl (add_service s1 16 kwargs_1 clock_1)"
    by (rule add_service_16_kwargs_1_fits)
  then obtain s2 where s2: "add_service s1 16 kwargs_1 clock_1 = Inr s2"
    by (cases "add_service s1 16 kwargs_1 clock_1") auto
  from init_record [OF s1] have l1: "length (pending s1) = 65497" by simp
  from add_service_Inr [OF s2] have p: "pending s2 = pending s1 @ appended s1 s2"
    and some: "service s2 \<noteq> None"
    by blast+
  from add_service_Inr_length [OF s2] have l2: "length (appended s1 s2) = 39" by simp
  have len: "length (pending s2) = 65536" unfolding p using l1 l2 by simp
  from some have sv: "service s2 = Some (pending s2)" by (auto simp: pending_def)
  have "65535 < length (pending s2)" using len by simp
  from new_message_too_long [OF sv this] len show ?thesis
    by (simp add: s1 s2)
qed

section \<open>Rounding\<close>








section \<open>Coordinates of a position record\<close>









section \<open>Where the rounding of floats shows\<close>

text \<open>
  The rounding of the quotient and of the product reaches the stored field. For the
  literal 26.983183 the exact value of the expression is below 643843825 and the floats
  give 643843825; for the literal 90.00000002095476 the floats give \<open>2 ^ 32\<close>, which
  does not fit 4 bytes, so that the call raises.
\<close>

lemma coordinate_rounds_up:
  "coordinate (FloatNum (fl (26983183 / 1000000))) 180 = Inr 643843825
   \<and> \<lfloor>(26983183 / 1000000 :: rat) / 180 * 0xFFFFFFFF\<rfloor> = 643843824"
  by code_simp

lemma coordinate_out_of_range:
  "coordinate (FloatNum (fl (9000000002095476 / 100000000000000))) 90 = Inr 4294967296
   \<and> ebind (coordinate (FloatNum (fl (9000000002095476 / 100000000000000))) 90)
         (\<lambda>n. to_bytes n 4) = Inl OverflowError"
  by code_simp

section \<open>The packet type byte\<close>

text \<open>
  \<open>_pt\<close> is only ever assigned \<open>b'\x01'\<close>: it is 0x01 after the constructor and stays so
  through every \<open>add_service\<close> and \<open>new_message\<close>, whether the call returns or raises.
\<close>

lemma new_message_pt:
  "new_message s = Inr (packet, s') \<Longrightarrow> pt s' = pt s"
  by (auto simp: new_message_def raise_in_def Let_def split: option.splits sum.splits)

lemma new_message_Inl_pt:
  "new_message s = Inl (e, s') \<Longrightarrow> pt s' = pt s"
  by (auto simp: new_message_def raise_in_def Let_def split: option.splits sum.splits)

lemma add_service_1_Inl_pt:
  "add_service_1 s rn_b clock = Inl (e, s') \<Longrightarrow> pt s' = pt s \<or> pt s' = [0x01]"
  by (auto simp: add_service_1_def raise_in_def Let_def split: sum.splits)

lemma add_service_2_Inl_pt:
  "add_service_2 s rn_b clock = Inl (e, s') \<Longrightarrow> pt s' = pt s \<or> pt s' = [0x01]"
  by (auto simp: add_service_2_def raise_in_def Let_def split: sum.splits)

lemma add_service_4_Inl_pt:
  "add_service_4 s rn_b = Inl (e, s') \<Longrightarrow> pt s' = pt s \<or> pt s' = [0x01]"
  by (auto simp: add_service_4_def raise_in_def Let_def split: sum.splits)

lemma add_service_16_Inl_pt:
  "add_service_16 s rn_b kwargs clock = Inl (e, s') \<Longrightarrow> pt s' = pt s \<or> pt s' = [0x01]"
  by (auto simp: add_service_16_def raise_in_def Let_def split: sum.splits)


lemma add_service_Inl_pt:
  assumes "add_service s record_types kwargs clock = Inl (e, s')" "pt s = [0x01]"
  shows "pt s' = [0x01]"
proof -
  define s0 where "s0 = (if service s = None then s\<lparr>service := Some []\<rparr> else s)"
  have pt0: "pt s0 = [0x01]" using assms(2) by (simp add: s0_def)
  let ?branch = "\<lambda>rn_b. if record_types = 1 then add_service_1 s0 rn_b clock
          else if record_types = 2 then add_service_2 s0 rn_b clock
          else if record_types = 16 then add_service_16 s0 rn_b kwargs clock
          else if record_types = 4 then add_service_4 s0 rn_b
          else Inl (UnboundLocalError, s0)"
  have unfolded: "raise_in s0 (to_bytes (rn s0) 2) (\<lambda>rn_b.
      case ?branch rn_b of Inl raised \<Rightarrow> Inl raised
      | Inr (r, s1) \<Rightarrow>
          (case service s1 of None \<Rightarrow> Inl (TypeError, s1)
           | Some buffer \<Rightarrow> Inr (s1\<lparr>service := Some (buffer @ r), rn := rn s1 + 1\<rparr>)))
      = Inl (e, s')"
    using assms(1) unfolding add_service_def Let_def s0_def [symmetric] .
  show ?thesis
  proof (cases "to_bytes (rn s0) 2")
    case (Inl err)
    with unfolded have "s' = s0" by (simp add: raise_in_def)
    with pt0 show ?thesis by simp
  next
    case (Inr rn_b)
    then have len: "length rn_b = 2" by (auto simp: to_bytes_Inr_iff)
    from Inr unfolded have rest: "(case ?branch rn_b of Inl raised \<Rightarrow> Inl raised
      | Inr (r, s1) \<Rightarrow>
          (case service s1 of None \<Rightarrow> Inl (TypeError, s1)
           | Some buffer \<Rightarrow> Inr (s1\<lparr>service := Some (buffer @ r), rn := rn s1 + 1\<rparr>)))
      = Inl (e, s')"
      by (simp add: raise_in_def)
    show ?thesis
    proof (cases "?branch rn_b")
      case branch_raised: (Inl raised)
      with rest have "?branch rn_b = Inl (e, s')" by simp
      then have "pt s' = pt s0 \<or> pt s' = [0x01]"
        using add_service_1_Inl_pt [of s0 rn_b clock e s']
          add_service_2_Inl_pt [of s0 rn_b clock e s']
          add_service_16_Inl_pt [of s0 rn_b kwargs clock e s']
          add_service_4_Inl_pt [of s0 rn_b e s']
        by (auto split: if_splits)
      with pt0 show ?thesis by auto
    next
      case branch_done: (Inr result)
      obtain r s1 where result: "result = (r, s1)" by (cases result)
      from add_service_branch [OF branch_done [unfolded result] len] pt0
      have "pt s1 = [0x01]" by (auto split: if_splits)
      moreover from rest branch_done result have "s' = s1"
        by (auto split: option.splits)
      ultimately show ?thesis by simp
    qed
  qed
qed

lemma packet_type_invariant:
  "(init deviceid deviceimei clock0 = Inr s0 \<longrightarrow> pt s0 = [0x01])
   \<and> (pt s = [0x01] \<longrightarrow>
        (add_service s record_types kwargs clock = Inr s' \<longrightarrow> pt s' = [0x01])
        \<and> (add_service s record_types kwargs clock = Inl (e, s') \<longrightarrow> pt s' = [0x01])
        \<and> (new_message s = Inr (packet, s') \<longrightarrow> pt s' = [0x01])
        \<and> (new_message s = Inl (e, s') \<longrightarrow> pt s' = [0x01]))"
proof -
  have "pt s' = [0x01]" if "add_service s record_types kwargs clock = Inr s'" "pt s = [0x01]"
    using add_service_Inr [OF that(1)] that(2) by (auto split: if_splits)
  moreover have "pt s0 = [0x01]" if "init deviceid deviceimei clock0 = Inr s0"
    using init_Inr [OF that] by blast
  ultimately show ?thesis
    using add_service_Inl_pt [of s record_types kwargs clock e s']
      new_message_pt [of s packet s'] new_message_Inl_pt [of s e s']
    by auto
qed

end
